theory Spec2Isabelle
  imports Main "HOL-Library.Char_ord" "HOL-Library.List_Lexorder" "HOL-Library.Multiset"
begin

section \<open>File-system backed message history store (msteams)\<close>

text \<open>
  A shallow embedding of \<^verbatim>\<open>message-history-store.ts\<close> and
  \<^verbatim>\<open>message-history-store-fs.ts\<close>.

  Conventions of the embedding.
  \<^item> A JavaScript string is a \<open>string\<close>; \<open><\<close> on strings is the lexicographic order on
    character codes (\<open>Char_ord\<close>, \<open>List_Lexorder\<close>), as JavaScript's \<open><\<close> is on code units.
  \<^item> A JavaScript number that holds a count, a page size or a time in milliseconds is an
    \<open>int\<close>; a fractional, \<open>NaN\<close> or infinite capacity, retention window or page size is
    outside the embedding. The \<open>NaN\<close> result of \<open>Date.parse\<close> is \<open>None\<close>. The result of
    \<open>parseInt\<close> is a \<open>js_number\<close>: \<open>NaN\<close>, an infinity, or the double nearest to the
    digits read.
  \<^item> A JavaScript array has fewer than \<open>2^32\<close> elements, so the offsets and the lengths
    that \<open>read\<close> adds and compares for an array are exact; the lists of the embedding have
    no such bound.
  \<^item> The host functions the code calls but does not define are fields of \<open>params\<close>:
    \<open>Date.parse\<close>, \<open>String.prototype.localeCompare\<close> and the SHA-256 hex digest.
    \<open>Date.now()\<close> is the argument \<open>now\<close> of every operation that reads the clock.
  \<^item> The file system is a value of type \<open>world\<close>, passed through every operation.
    Calls are sequential: one operation runs to completion before the next starts.
  \<^item> A parsed JSON file is a \<open>json_doc\<close>: its \<open>version\<close> may be any value, its
    \<open>messages\<close> may fail to be an array; the elements of an array are well-typed messages
    and \<open>conversationId\<close> is a string. The operations that read are embedded a second
    time over files without this typing (\<open>untyped_doc\<close>), where a property read can throw.
\<close>

subsection \<open>message-history-store.ts: constants and types\<close>

definition DEFAULT_HISTORY_TTL_MS :: int where
  "DEFAULT_HISTORY_TTL_MS = 365 * 24 * 60 * 60 * 1000"

definition DEFAULT_MAX_MESSAGES :: int where
  "DEFAULT_MAX_MESSAGES = 200000"

record attachment =
  contentType :: "string option"
  contentUrl :: "string option"
  name :: "string option"
  thumbnailUrl :: "string option"

text \<open>The fields \<open>id\<close> and \<open>from\<close> of the source are \<open>id_f\<close> and \<open>from_f\<close> here.\<close>

record StoredMessage =
  id_f :: string
  from_f :: string
  body :: string
  createdDateTime :: string
  messageType :: string
  attachments :: "attachment list option"

record MessageHistoryStoreData =
  version :: int
  conversationId :: string
  messages :: "StoredMessage list"

record ReadOpts =
  limit :: "int option"
  cursor :: "string option"
  before :: "string option"
  after :: "string option"

text \<open>The field \<open>messages\<close> of a read result is \<open>messagesR\<close>.\<close>

record ReadResult =
  messagesR :: "StoredMessage list"
  nextCursor :: "string option"

subsection \<open>Host functions, configuration and the file system\<close>

record params =
  ttlMs :: int
  maxMessages :: int
  storeDir :: string
  sha256_hex :: "string \<Rightarrow> string"
  Date_parse :: "string \<Rightarrow> int option"
  localeCompare :: "string \<Rightarrow> string \<Rightarrow> int"

text \<open>What \<open>JSON.parse\<close> gives for a store file, before \<open>readStore\<close> validates it:
  \<open>j_version\<close> is \<open>None\<close> when the field is absent or not an integer, \<open>j_messages\<close> is
  \<open>None\<close> when the field is absent or not an array. The code checks no more than these two
  fields. In a \<open>json_doc\<close> the array elements are message objects and \<open>conversationId\<close> is
  a string, as the type \<open>MessageHistoryStoreData\<close> of the source says and as every file that
  \<open>append\<close> writes is; files that pass the two checks without being so typed are the
  \<open>untyped_doc\<close> values below.\<close>

record json_doc =
  j_version :: "int option"
  j_conversationId :: string
  j_messages :: "StoredMessage list option"

text \<open>The content of a file that holds JSON of type \<open>'d\<close> when it parses, as the generic
  \<open>readJsonFile<T>\<close> sees it.\<close>

datatype 'd json_file = Unparsable | Parsed 'd

type_synonym file_content = "json_doc json_file"

datatype fs_error = IOError

text \<open>\<open>files\<close> maps a path to the content of the file there; \<open>writable\<close> tells whether a
  write to a path succeeds; \<open>writes\<close> logs the paths written, oldest first; \<open>readdir\<close> and
  \<open>stat_mtimeMs\<close> are the answers of \<open>fs.readdir\<close> and \<open>fs.stat(...).mtimeMs\<close> to a call of
  \<open>readDefault\<close>, each an error or a value. The listing and the modification times are
  data of the world that a write leaves as they are.\<close>

record 'd fs_world =
  files :: "string \<Rightarrow> 'd json_file option"
  writable :: "string \<Rightarrow> bool"
  writes :: "string list"
  readdir :: "string \<Rightarrow> fs_error + string list"
  stat_mtimeMs :: "string \<Rightarrow> fs_error + int"

type_synonym world = "json_doc fs_world"

subsection \<open>JavaScript library functions used by the store\<close>

text \<open>\<open>Array.prototype.slice(start, end)\<close> on integer arguments.\<close>

definition js_slice :: "'a list \<Rightarrow> int \<Rightarrow> int \<Rightarrow> 'a list" where
  "js_slice xs start end' =
     (let len = int (length xs);
          k = (if start < 0 then max (len + start) 0 else min start len);
          e = (if end' < 0 then max (len + end') 0 else min end' len)
      in take (nat (e - k)) (drop (nat k) xs))"

text \<open>\<open>slice(start)\<close>: the end defaults to the length.\<close>

definition js_slice_from :: "'a list \<Rightarrow> int \<Rightarrow> 'a list" where
  "js_slice_from xs start = js_slice xs start (int (length xs))"

text \<open>\<open>Array.prototype.at(i)\<close>: \<open>undefined\<close> is \<open>None\<close>.\<close>

definition js_at :: "'a list \<Rightarrow> int \<Rightarrow> 'a option" where
  "js_at xs i =
     (let len = int (length xs); k = (if i < 0 then len + i else i)
      in if 0 \<le> k \<and> k < len then Some (xs ! nat k) else None)"

text \<open>\<open>Array.prototype.sort(cmp)\<close> is a stable sort; for a comparator that is a total
  preorder every stable sort gives the same list, computed here by insertion.\<close>

fun insort_cmp :: "('a \<Rightarrow> 'a \<Rightarrow> int) \<Rightarrow> 'a \<Rightarrow> 'a list \<Rightarrow> 'a list" where
  "insort_cmp c x [] = [x]"
| "insort_cmp c x (y # ys) = (if c x y \<le> 0 then x # y # ys else y # insort_cmp c x ys)"

definition array_sort :: "('a \<Rightarrow> 'a \<Rightarrow> int) \<Rightarrow> 'a list \<Rightarrow> 'a list" where
  "array_sort c xs = foldr (insort_cmp c) xs []"

definition startsWith :: "string \<Rightarrow> string \<Rightarrow> bool" where
  "startsWith s p = (take (length p) s = p)"

definition endsWith :: "string \<Rightarrow> string \<Rightarrow> bool" where
  "endsWith s p = (length p \<le> length s \<and> drop (length s - length p) s = p)"

definition is_digit :: "char \<Rightarrow> bool" where
  "is_digit c = (48 \<le> (of_char c :: nat) \<and> (of_char c :: nat) \<le> 57)"

definition digit_val :: "char \<Rightarrow> nat" where
  "digit_val c = of_char c - 48"

definition digit_char :: "nat \<Rightarrow> char" where
  "digit_char d = char_of (48 + d)"

text \<open>The white space \<open>parseInt\<close> skips, among the characters below 256: TAB, LF, VT, FF,
  CR, SP and NBSP.\<close>

definition is_space :: "char \<Rightarrow> bool" where
  "is_space c = ((of_char c :: nat) \<in> {9, 10, 11, 12, 13, 32, 160})"

definition digits_val :: "string \<Rightarrow> nat" where
  "digits_val ds = foldl (\<lambda>acc c. 10 * acc + digit_val c) 0 ds"

text \<open>What \<open>parseInt\<close> returns: \<open>NaN\<close>, a finite double of integer value, or an
  infinity.\<close>

datatype js_number = NaN | Finite int | PosInfinity | NegInfinity

fun bit_length :: "nat \<Rightarrow> nat" where
  "bit_length n = (if n = 0 then 0 else Suc (bit_length (n div 2)))"

text \<open>The double nearest to a natural number, ties to the even significand. A number
  below \<open>2^53\<close> is a double; a larger one keeps its leading 53 bits, rounded. The result is
  \<open>2^1024\<close> or more exactly when the number rounds to infinity.\<close>

definition round53 :: "nat \<Rightarrow> nat" where
  "round53 n =
     (if n < 2 ^ 53 then n
      else
        (let e = bit_length n - 53;
             q = n div 2 ^ e;
             r = n mod 2 ^ e;
             h = 2 ^ (e - 1)
         in (if r < h \<or> (r = h \<and> even q) then q else q + 1) * 2 ^ e))"

text \<open>\<open>Number.parseInt(s, 10)\<close>: leading white space, an optional sign, then the longest
  run of decimal digits; \<open>NaN\<close> when there is no digit; otherwise the Number for the signed
  value of the digits.\<close>

definition parseInt :: "string \<Rightarrow> js_number" where
  "parseInt s =
     (let t = dropWhile is_space s;
          neg = (t \<noteq> [] \<and> hd t = CHR ''-'');
          u = (if t \<noteq> [] \<and> (hd t = CHR ''-'' \<or> hd t = CHR ''+'') then tl t else t);
          ds = takeWhile is_digit u;
          v = round53 (digits_val ds)
      in if ds = [] then NaN
         else if v \<ge> 2 ^ 1024 then (if neg then NegInfinity else PosInfinity)
         else Finite (if neg then - int v else int v))"

text \<open>\<open>String(n)\<close> for an integer \<open>n\<close> of magnitude below \<open>10^21\<close>: its decimal digits.
  A cursor that \<open>read\<close> issues for an array is such a number.\<close>

fun String_nat :: "nat \<Rightarrow> string" where
  "String_nat n =
     (if n < 10 then [digit_char n] else String_nat (n div 10) @ [digit_char (n mod 10)])"

definition String_int :: "int \<Rightarrow> string" where
  "String_int i = (if i < 0 then CHR ''-'' # String_nat (nat (- i)) else String_nat (nat i))"

text \<open>\<open>path.join(dir, f)\<close> for a plain file name \<open>f\<close>; joining \<open>.\<close> gives the directory.\<close>

definition path_join :: "string \<Rightarrow> string \<Rightarrow> string" where
  "path_join dir f = (if f = ''.'' then dir else dir @ ''/'' @ f)"

subsection \<open>The helpers of storage.ts and store-fs.ts\<close>

text \<open>Modelled from the spec: \<^verbatim>\<open>resolveMSTeamsStorePath\<close> (storage.ts) is missing; the spec
  leaves path resolution to an external collaborator that places every per-conversation
  file under one root directory, here \<open>storeDir\<close>.\<close>

definition resolveMSTeamsStorePath :: "params \<Rightarrow> string \<Rightarrow> string" where
  "resolveMSTeamsStorePath P filename = path_join (storeDir P) filename"

definition to_json :: "MessageHistoryStoreData \<Rightarrow> json_doc" where
  "to_json s = \<lparr>j_version = Some (version s), j_conversationId = conversationId s,
                j_messages = Some (messages s)\<rparr>"

text \<open>Modelled from the spec: \<^verbatim>\<open>readJsonFile\<close> (store-fs.ts) is missing; by the spec's
  sections 4.2 and 7 a missing file and a parse failure are not errors, and the caller's
  fallback stands for the record.\<close>

definition readJsonFile :: "'d fs_world \<Rightarrow> string \<Rightarrow> 'd \<Rightarrow> 'd" where
  "readJsonFile w filePath fallback =
     (case files w filePath of
        None \<Rightarrow> fallback
      | Some Unparsable \<Rightarrow> fallback
      | Some (Parsed v) \<Rightarrow> v)"

text \<open>Modelled from the spec: \<^verbatim>\<open>writeJsonFile\<close> (store-fs.ts) is missing; by the spec's
  sections 4.2 and 7 it persists the full record atomically, or fails with an I/O error
  that reaches the caller and leaves the file as it was.\<close>

definition writeJsonFile :: "world \<Rightarrow> string \<Rightarrow> MessageHistoryStoreData \<Rightarrow> fs_error + world" where
  "writeJsonFile w filePath s =
     (if writable w filePath
      then Inr (w\<lparr>files := (files w)(filePath \<mapsto> Parsed (to_json s)),
                 writes := writes w @ [filePath]\<rparr>)
      else Inl IOError)"

text \<open>Modelled from the spec: \<^verbatim>\<open>withFileLock\<close> (store-fs.ts) is missing; by the spec's
  section 5 it runs the body under an exclusive scope keyed by the file and releases the
  scope afterwards. With sequential calls the scope is always free, so it runs the body.\<close>

definition withFileLock :: "string \<Rightarrow> MessageHistoryStoreData \<Rightarrow> (world \<Rightarrow> 'r \<times> world) \<Rightarrow> world \<Rightarrow> 'r \<times> world" where
  "withFileLock filePath fallback fn w = fn w"

subsection \<open>message-history-store-fs.ts\<close>

definition DEFAULT_LIMIT :: int where
  "DEFAULT_LIMIT = 20"

definition MAX_LIMIT :: int where
  "MAX_LIMIT = 50"

definition hashConversationId :: "params \<Rightarrow> string \<Rightarrow> string" where
  "hashConversationId P cid = take 16 (sha256_hex P cid)"

definition emptyStore :: "string \<Rightarrow> MessageHistoryStoreData" where
  "emptyStore cid = \<lparr>version = 1, conversationId = cid, messages = []\<rparr>"

text \<open>\<open>!cursor\<close> holds for an absent and for an empty cursor; \<open>Number.isFinite\<close> fails
  for \<open>NaN\<close> and for the infinities.\<close>

definition parseCursor :: "string option \<Rightarrow> int" where
  "parseCursor c =
     (case c of
        None \<Rightarrow> 0
      | Some s \<Rightarrow>
          if s = [] then 0
          else (case parseInt s of
                  Finite n \<Rightarrow> if n \<ge> 0 then n else 0
                | NaN \<Rightarrow> 0
                | PosInfinity \<Rightarrow> 0
                | NegInfinity \<Rightarrow> 0))"

text \<open>\<open>createMessageHistoryStoreFs\<close> fixes the retention window and the capacity, each
  with its default; the remaining fields of \<open>params\<close> are the host's.\<close>

definition createMessageHistoryStoreFs :: "int option \<Rightarrow> int option \<Rightarrow> params \<Rightarrow> params" where
  "createMessageHistoryStoreFs ttl maxm host =
     host\<lparr>ttlMs := (case ttl of None \<Rightarrow> DEFAULT_HISTORY_TTL_MS | Some t \<Rightarrow> t),
          maxMessages := (case maxm of None \<Rightarrow> DEFAULT_MAX_MESSAGES | Some n \<Rightarrow> n)\<rparr>"

definition history_filename :: "string \<Rightarrow> string" where
  "history_filename hash = ''msteams-history-'' @ hash @ ''.json''"

definition resolveFilePath :: "params \<Rightarrow> string \<Rightarrow> string" where
  "resolveFilePath P cid =
     resolveMSTeamsStorePath P (history_filename (hashConversationId P cid))"

definition readStore :: "world \<Rightarrow> string \<Rightarrow> string \<Rightarrow> MessageHistoryStoreData" where
  "readStore w filePath cid =
     (let v = readJsonFile w filePath (to_json (emptyStore cid))
      in case j_messages v of
           None \<Rightarrow> emptyStore cid
         | Some ms \<Rightarrow>
             if j_version v \<noteq> Some 1 then emptyStore cid
             else \<lparr>version = 1, conversationId = j_conversationId v, messages = ms\<rparr>)"

definition is_fresh :: "params \<Rightarrow> int \<Rightarrow> StoredMessage \<Rightarrow> bool" where
  "is_fresh P now m =
     (case Date_parse P (createdDateTime m) of
        None \<Rightarrow> False
      | Some ts \<Rightarrow> ts > now - ttlMs P)"

definition prune :: "params \<Rightarrow> int \<Rightarrow> StoredMessage list \<Rightarrow> StoredMessage list" where
  "prune P now msgs =
     (let fresh = filter (is_fresh P now) msgs
      in if int (length fresh) > maxMessages P
         then js_slice_from fresh (int (length fresh) - maxMessages P)
         else fresh)"

definition by_createdDateTime :: "params \<Rightarrow> StoredMessage \<Rightarrow> StoredMessage \<Rightarrow> int" where
  "by_createdDateTime P a b = localeCompare P (createdDateTime a) (createdDateTime b)"

text \<open>Lines 91 to 95 of \<open>append\<close>: push, then sort when the new message is before the
  element at \<open>at(-2)\<close>.\<close>

definition push_and_repair :: "params \<Rightarrow> StoredMessage list \<Rightarrow> StoredMessage \<Rightarrow> StoredMessage list" where
  "push_and_repair P msgs message =
     (let pushed = msgs @ [message]
      in case js_at pushed (- 2) of
           None \<Rightarrow> pushed
         | Some l \<Rightarrow>
             if createdDateTime message < createdDateTime l
             then array_sort (by_createdDateTime P) pushed
             else pushed)"

definition is_duplicate :: "StoredMessage list \<Rightarrow> StoredMessage \<Rightarrow> bool" where
  "is_duplicate msgs message =
     (id_f message \<noteq> [] \<and> list_ex (\<lambda>m. id_f m = id_f message) msgs)"

definition append_body :: "params \<Rightarrow> int \<Rightarrow> string \<Rightarrow> string \<Rightarrow> StoredMessage \<Rightarrow> world \<Rightarrow> (fs_error + unit) \<times> world" where
  "append_body P now filePath cid message w =
     (let store = readStore w filePath cid
      in if is_duplicate (messages store) message then (Inr (), w)
         else
           (let store' = store\<lparr>messages := prune P now (push_and_repair P (messages store) message)\<rparr>
            in case writeJsonFile w filePath store' of
                 Inl e \<Rightarrow> (Inl e, w)
               | Inr w' \<Rightarrow> (Inr (), w')))"

definition append :: "params \<Rightarrow> int \<Rightarrow> string \<Rightarrow> StoredMessage \<Rightarrow> world \<Rightarrow> (fs_error + unit) \<times> world" where
  "append P now cid message w =
     (let filePath = resolveFilePath P cid;
          empty = emptyStore cid
      in withFileLock filePath empty (append_body P now filePath cid message) w)"

text \<open>A string option is truthy when it is present and not empty.\<close>

definition filter_after :: "string option \<Rightarrow> StoredMessage list \<Rightarrow> StoredMessage list" where
  "filter_after a msgs =
     (case a of
        None \<Rightarrow> msgs
      | Some t \<Rightarrow> if t = [] then msgs else filter (\<lambda>m. t < createdDateTime m) msgs)"

definition filter_before :: "string option \<Rightarrow> StoredMessage list \<Rightarrow> StoredMessage list" where
  "filter_before b msgs =
     (case b of
        None \<Rightarrow> msgs
      | Some t \<Rightarrow> if t = [] then msgs else filter (\<lambda>m. createdDateTime m < t) msgs)"

definition opt_limit :: "ReadOpts option \<Rightarrow> int option" where
  "opt_limit opts = (case opts of None \<Rightarrow> None | Some opt \<Rightarrow> limit opt)"

definition opt_cursor :: "ReadOpts option \<Rightarrow> string option" where
  "opt_cursor opts = (case opts of None \<Rightarrow> None | Some opt \<Rightarrow> cursor opt)"

definition opt_before :: "ReadOpts option \<Rightarrow> string option" where
  "opt_before opts = (case opts of None \<Rightarrow> None | Some opt \<Rightarrow> before opt)"

definition opt_after :: "ReadOpts option \<Rightarrow> string option" where
  "opt_after opts = (case opts of None \<Rightarrow> None | Some opt \<Rightarrow> after opt)"

definition clamp_limit :: "int option \<Rightarrow> int" where
  "clamp_limit l = min (max 1 (case l of None \<Rightarrow> DEFAULT_LIMIT | Some n \<Rightarrow> n)) MAX_LIMIT"




text \<open>The filtered, newest-first sequence that \<open>read\<close> pages through. In \<open>read\<close> the sum
  \<open>offset + limit\<close> is the exact one: for an array it is exact in JavaScript whenever it is
  below the length, and otherwise only its being at or beyond the length matters.\<close>

definition allMessages :: "params \<Rightarrow> string \<Rightarrow> ReadOpts option \<Rightarrow> world \<Rightarrow> StoredMessage list" where
  "allMessages P cid opts w =
     (let store = readStore w (resolveFilePath P cid) cid;
          filtered = filter_before (opt_before opts) (filter_after (opt_after opts) (messages store))
      in rev filtered)"

definition read :: "params \<Rightarrow> string \<Rightarrow> ReadOpts option \<Rightarrow> world \<Rightarrow> ReadResult" where
  "read P cid opts w =
     (let all = allMessages P cid opts w;
          lim = clamp_limit (opt_limit opts);
          offset = parseCursor (opt_cursor opts);
          page = js_slice all offset (offset + lim);
          hasMore = (offset + lim < int (length all))
      in \<lparr>messagesR = page,
          nextCursor = (if hasMore then Some (String_int (offset + lim)) else None)\<rparr>)"

definition empty_result :: ReadResult where
  "empty_result = \<lparr>messagesR = [], nextCursor = None\<rparr>"

definition is_history_file :: "string \<Rightarrow> bool" where
  "is_history_file f = (startsWith f ''msteams-history-'' \<and> endsWith f ''.json'')"

text \<open>The loop of \<open>readDefault\<close> over the history files, with the running \<open>best\<close> and
  \<open>bestMtime\<close>; a failing \<open>stat\<close> leaves the loop with its error.\<close>

fun pick_best :: "'d fs_world \<Rightarrow> string \<Rightarrow> string list \<Rightarrow> string \<Rightarrow> int \<Rightarrow> fs_error + string" where
  "pick_best w dir [] best bestMtime = Inr best"
| "pick_best w dir (f # fs) best bestMtime =
     (case stat_mtimeMs w (path_join dir f) of
        Inl e \<Rightarrow> Inl e
      | Inr mt \<Rightarrow>
          if mt > bestMtime then pick_best w dir fs f mt
          else pick_best w dir fs best bestMtime)"

text \<open>The \<open>try\<close> block of \<open>readDefault\<close>.\<close>

definition readDefault_try :: "params \<Rightarrow> ReadOpts option \<Rightarrow> world \<Rightarrow> fs_error + ReadResult" where
  "readDefault_try P opts w =
     (let dir = resolveMSTeamsStorePath P ''.''
      in case readdir w dir of
           Inl e \<Rightarrow> Inl e
         | Inr fs \<Rightarrow>
             (let historyFiles = filter is_history_file fs
              in if historyFiles = [] then Inr empty_result
                 else
                   (case pick_best w dir historyFiles (hd historyFiles) 0 of
                      Inl e \<Rightarrow> Inl e
                    | Inr best \<Rightarrow>
                        (let v = readJsonFile w (path_join dir best) (to_json (emptyStore []))
                         in if j_version v \<noteq> Some 1 \<or> j_messages v = None
                            then Inr empty_result
                            else Inr (read P (j_conversationId v) opts w)))))"

definition readDefault :: "params \<Rightarrow> ReadOpts option \<Rightarrow> world \<Rightarrow> ReadResult" where
  "readDefault P opts w =
     (case readDefault_try P opts w of
        Inl e \<Rightarrow> empty_result
      | Inr r \<Rightarrow> r)"

subsection \<open>Store files that are not well typed\<close>

text \<open>\<open>readJsonFile<MessageHistoryStoreData>\<close> casts what \<open>JSON.parse\<close> gives, and the code
  checks \<open>version\<close> and \<open>Array.isArray(messages)\<close> only. An \<open>untyped_doc\<close> is a parsed file
  in which an element of the array is \<open>null\<close> or a message object, and in which
  \<open>u_conversationId\<close> is \<open>None\<close> when the field is absent or not a string. Reading a
  property of \<open>null\<close> throws a \<open>TypeError\<close>, and so does \<open>Hash.update\<close> on a value that is
  not a string. Array elements of other kinds (numbers, strings, objects without the fields
  of a message) are left out.\<close>

datatype json_element = JNull | JMessage StoredMessage

datatype js_error = TypeError

record untyped_doc =
  u_version :: "int option"
  u_conversationId :: "string option"
  u_messages :: "json_element list option"

text \<open>The record that \<open>readStore\<close> returns, and the result of \<open>read\<close>, over such files.\<close>

record untyped_store =
  us_version :: int
  us_conversationId :: "string option"
  us_messages :: "json_element list"

record untyped_result =
  messagesU :: "json_element list"
  nextCursorU :: "string option"

type_synonym untyped_world = "untyped_doc fs_world"

definition emptyStore_untyped :: "string \<Rightarrow> untyped_doc" where
  "emptyStore_untyped cid =
     \<lparr>u_version = Some 1, u_conversationId = Some cid, u_messages = Some []\<rparr>"

definition readStore_untyped :: "untyped_world \<Rightarrow> string \<Rightarrow> string \<Rightarrow> untyped_store" where
  "readStore_untyped w filePath cid =
     (let v = readJsonFile w filePath (emptyStore_untyped cid)
      in case u_messages v of
           None \<Rightarrow> \<lparr>us_version = 1, us_conversationId = Some cid, us_messages = []\<rparr>
         | Some ms \<Rightarrow>
             if u_version v \<noteq> Some 1
             then \<lparr>us_version = 1, us_conversationId = Some cid, us_messages = []\<rparr>
             else \<lparr>us_version = 1, us_conversationId = u_conversationId v, us_messages = ms\<rparr>)"

text \<open>\<open>m.createdDateTime\<close> for an element \<open>m\<close> of the array.\<close>

fun createdDateTime_of :: "json_element \<Rightarrow> js_error + string" where
  "createdDateTime_of JNull = Inl TypeError"
| "createdDateTime_of (JMessage m) = Inr (createdDateTime m)"

text \<open>\<open>Array.prototype.filter\<close> with a callback that can throw: the elements are visited
  in order and the first throw ends the call.\<close>

fun js_filter :: "('a \<Rightarrow> js_error + bool) \<Rightarrow> 'a list \<Rightarrow> js_error + 'a list" where
  "js_filter p [] = Inr []"
| "js_filter p (x # xs) =
     (case p x of
        Inl e \<Rightarrow> Inl e
      | Inr b \<Rightarrow>
          (case js_filter p xs of
             Inl e \<Rightarrow> Inl e
           | Inr ys \<Rightarrow> Inr (if b then x # ys else ys)))"

definition filter_after_untyped :: "string option \<Rightarrow> json_element list \<Rightarrow> js_error + json_element list" where
  "filter_after_untyped a msgs =
     (case a of
        None \<Rightarrow> Inr msgs
      | Some t \<Rightarrow>
          if t = [] then Inr msgs
          else js_filter (\<lambda>m. case createdDateTime_of m of
                                 Inl e \<Rightarrow> Inl e
                               | Inr d \<Rightarrow> Inr (t < d)) msgs)"

definition filter_before_untyped :: "string option \<Rightarrow> json_element list \<Rightarrow> js_error + json_element list" where
  "filter_before_untyped b msgs =
     (case b of
        None \<Rightarrow> Inr msgs
      | Some t \<Rightarrow>
          if t = [] then Inr msgs
          else js_filter (\<lambda>m. case createdDateTime_of m of
                                 Inl e \<Rightarrow> Inl e
                               | Inr d \<Rightarrow> Inr (d < t)) msgs)"

text \<open>\<open>read\<close> over such files: a throw in one of the filters rejects the promise.\<close>

definition read_untyped :: "params \<Rightarrow> string \<Rightarrow> ReadOpts option \<Rightarrow> untyped_world \<Rightarrow> js_error + untyped_result" where
  "read_untyped P cid opts w =
     (let store = readStore_untyped w (resolveFilePath P cid) cid
      in case filter_after_untyped (opt_after opts) (us_messages store) of
           Inl e \<Rightarrow> Inl e
         | Inr filtered1 \<Rightarrow>
             (case filter_before_untyped (opt_before opts) filtered1 of
                Inl e \<Rightarrow> Inl e
              | Inr filtered \<Rightarrow>
                  (let all = rev filtered;
                       lim = clamp_limit (opt_limit opts);
                       offset = parseCursor (opt_cursor opts);
                       page = js_slice all offset (offset + lim);
                       hasMore = (offset + lim < int (length all))
                   in Inr \<lparr>messagesU = page,
                           nextCursorU = (if hasMore then Some (String_int (offset + lim))
                                          else None)\<rparr>)))"

definition empty_result_untyped :: untyped_result where
  "empty_result_untyped = \<lparr>messagesU = [], nextCursorU = None\<rparr>"

text \<open>The \<open>try\<close> block of \<open>readDefault\<close> over such files. An error of \<open>readdir\<close> or \<open>stat\<close>
  is thrown at an \<open>await\<close> inside the block; the promise of \<open>read\<close> is returned without an
  \<open>await\<close>, so the block ends with the promise, whose outcome is the inner sum. In \<open>read\<close>
  the \<open>conversationId\<close> is hashed first, which throws when it is not a string.\<close>

definition readDefault_try_untyped :: "params \<Rightarrow> ReadOpts option \<Rightarrow> untyped_world \<Rightarrow> fs_error + (js_error + untyped_result)" where
  "readDefault_try_untyped P opts w =
     (let dir = resolveMSTeamsStorePath P ''.''
      in case readdir w dir of
           Inl e \<Rightarrow> Inl e
         | Inr fs \<Rightarrow>
             (let historyFiles = filter is_history_file fs
              in if historyFiles = [] then Inr (Inr empty_result_untyped)
                 else
                   (case pick_best w dir historyFiles (hd historyFiles) 0 of
                      Inl e \<Rightarrow> Inl e
                    | Inr best \<Rightarrow>
                        (let v = readJsonFile w (path_join dir best) (emptyStore_untyped [])
                         in if u_version v \<noteq> Some 1 \<or> u_messages v = None
                            then Inr (Inr empty_result_untyped)
                            else Inr (case u_conversationId v of
                                        None \<Rightarrow> Inl TypeError
                                      | Some cid \<Rightarrow> read_untyped P cid opts w)))))"

text \<open>The \<open>catch\<close> holds what the block threw, and nothing of the promise it returned.\<close>

definition readDefault_untyped :: "params \<Rightarrow> ReadOpts option \<Rightarrow> untyped_world \<Rightarrow> js_error + untyped_result" where
  "readDefault_untyped P opts w =
     (case readDefault_try_untyped P opts w of
        Inl e \<Rightarrow> Inr empty_result_untyped
      | Inr r \<Rightarrow> r)"




subsection \<open>Example data\<close>

text \<open>Concrete host functions for the examples below: a table of the SHA-256 digests of
  the conversation ids used, a table of the \<open>Date.parse\<close> values of the timestamps used,
  and \<open>localeCompare\<close> as it orders such timestamps.\<close>

definition demo_sha256 :: "string \<Rightarrow> string" where
  "demo_sha256 s =
     (if s = ''conv1'' then ''4ae47b2b94176a5dbcf58c4737244f974ccf0ea70c4e6d6e5a3d018d87eee5f5''
      else if s = [] then ''e3b0c44298fc1c149afbf4c8996fb92427ae41e4649b934ca495991b7852b855''
      else [])"

definition T1 :: string where "T1 = ''2026-01-01T00:00:00.000Z''"
definition T2 :: string where "T2 = ''2026-01-02T00:00:00.000Z''"
definition T3 :: string where "T3 = ''2026-01-03T00:00:00.000Z''"
definition T_STALE :: string where "T_STALE = ''2020-01-01T00:00:00.000Z''"

definition demo_Date_parse :: "string \<Rightarrow> int option" where
  "demo_Date_parse s =
     (if s = T1 then Some 1767225600000
      else if s = T2 then Some 1767312000000
      else if s = T3 then Some 1767398400000
      else if s = T_STALE then Some 1577836800000
      else None)"

definition demo_localeCompare :: "string \<Rightarrow> string \<Rightarrow> int" where
  "demo_localeCompare x y = (if x < y then - 1 else if y < x then 1 else 0)"

definition demo_host :: params where
  "demo_host =
     \<lparr>ttlMs = 0, maxMessages = 0, storeDir = ''/state'', sha256_hex = demo_sha256,
      Date_parse = demo_Date_parse, localeCompare = demo_localeCompare\<rparr>"

text \<open>A store with the default retention, and one with a capacity of two messages.\<close>

definition demo_params :: params where
  "demo_params = createMessageHistoryStoreFs None None demo_host"

definition small_params :: params where
  "small_params = createMessageHistoryStoreFs None (Some 2) demo_host"

text \<open>The clock at 2026-06-01 and at 2027-06-01 (UTC), in milliseconds.\<close>

definition JUN_2026 :: int where "JUN_2026 = 1780272000000"
definition JUN_2027 :: int where "JUN_2027 = 1811808000000"

definition demo_message :: "string \<Rightarrow> string \<Rightarrow> StoredMessage" where
  "demo_message i t =
     \<lparr>id_f = i, from_f = ''user'', body = ''hello'', createdDateTime = t,
      messageType = ''message'', attachments = None\<rparr>"

definition demo_store :: "string \<Rightarrow> StoredMessage list \<Rightarrow> file_content" where
  "demo_store cid msgs =
     Parsed \<lparr>j_version = Some 1, j_conversationId = cid, j_messages = Some msgs\<rparr>"

definition conv1_file :: string where
  "conv1_file = ''msteams-history-4ae47b2b94176a5d.json''"

definition conv1_path :: string where
  "conv1_path = ''/state/msteams-history-4ae47b2b94176a5d.json''"

text \<open>A world with the given files, where every write succeeds.\<close>

definition demo_world :: "(string \<Rightarrow> file_content option) \<Rightarrow> world" where
  "demo_world fs =
     \<lparr>files = fs, writable = (\<lambda>p. True), writes = [],
      readdir = (\<lambda>d. Inr []), stat_mtimeMs = (\<lambda>p. Inl IOError)\<rparr>"

text \<open>The history of \<open>conv1\<close> holds one message, \<open>a\<close>, created at \<open>T1\<close>.\<close>

definition conv1_world :: world where
  "conv1_world =
     demo_world (Map.empty(conv1_path \<mapsto> demo_store ''conv1'' [demo_message ''a'' T1]))"

lemmas demo_defs = demo_params_def small_params_def demo_host_def createMessageHistoryStoreFs_def
  demo_sha256_def demo_Date_parse_def demo_localeCompare_def demo_message_def demo_world_def
  demo_store_def conv1_path_def conv1_file_def conv1_world_def JUN_2026_def JUN_2027_def
  T1_def T2_def T3_def T_STALE_def DEFAULT_HISTORY_TTL_MS_def DEFAULT_MAX_MESSAGES_def

subsection \<open>Runs of appends and of reads\<close>

text \<open>The comparator agrees with the order of \<open><\<close> on the timestamps of a list, as
  \<open>localeCompare\<close> does on ISO-8601 timestamps of one precision.\<close>

definition agrees_on :: "params \<Rightarrow> StoredMessage list \<Rightarrow> bool" where
  "agrees_on P xs =
     (\<forall>a \<in> set xs. \<forall>b \<in> set xs.
        (by_createdDateTime P a b \<le> 0) = (createdDateTime a \<le> createdDateTime b))"


text \<open>A sequence of \<open>append\<close> calls, each with the clock at its time; a call that fails
  leaves the world as it was and the next one runs.\<close>

fun run_appends :: "params \<Rightarrow> (int \<times> string \<times> StoredMessage) list \<Rightarrow> world \<Rightarrow> world" where
  "run_appends P [] w = w"
| "run_appends P ((now, cid, m) # calls) w = run_appends P calls (snd (append P now cid m w))"

subsection \<open>The specification's retention policy, unusable records, paging\<close>

text \<open>The retention policy in the words of the specification: step 1 drops every message
  whose \<open>createdDateTime\<close> fails to parse or whose parsed time is at or before
  \<open>now - ttl\<close>; step 2 keeps the last \<open>maxCount\<close> entries of what remains when more than
  \<open>maxCount\<close> remain.\<close>

definition dropped_by_age :: "params \<Rightarrow> int \<Rightarrow> StoredMessage \<Rightarrow> bool" where
  "dropped_by_age P now m =
     (case Date_parse P (createdDateTime m) of
        None \<Rightarrow> True
      | Some ts \<Rightarrow> ts \<le> now - ttlMs P)"

definition keep_last :: "nat \<Rightarrow> 'a list \<Rightarrow> 'a list" where
  "keep_last n xs = drop (length xs - n) xs"

definition retention_spec :: "params \<Rightarrow> int \<Rightarrow> StoredMessage list \<Rightarrow> StoredMessage list" where
  "retention_spec P now msgs =
     (let remaining = filter (\<lambda>m. \<not> dropped_by_age P now m) msgs
      in if int (length remaining) > maxMessages P
         then keep_last (nat (maxMessages P)) remaining
         else remaining)"

text \<open>The four ways a stored record is unusable: the file is missing, its bytes do not
  parse, its \<open>version\<close> is not 1, or its \<open>messages\<close> field is not an array.\<close>

fun unusable :: "file_content option \<Rightarrow> bool" where
  "unusable None = True"
| "unusable (Some Unparsable) = True"
| "unusable (Some (Parsed d)) = (j_version d \<noteq> Some 1 \<or> j_messages d = None)"



text \<open>A client that pages through a conversation: it calls \<open>read\<close> with the fixed options
  and the current cursor, keeps the page, and goes on with the \<open>nextCursor\<close> it got until
  none is returned. The result is the list of the pages, in the order they were read.
  Paging is by array offsets. A list of \<open>2^32\<close> or more elements is no JavaScript array and
  no store file holds one; for such a list the result is defined as the one page of the
  messages from the cursor's offset on.\<close>

function read_pages :: "params \<Rightarrow> string \<Rightarrow> ReadOpts \<Rightarrow> string option \<Rightarrow> world \<Rightarrow> StoredMessage list list" where
  "read_pages P cid opt c w =
     (if int (length (allMessages P cid (Some opt) w)) < 2 ^ 32
      then
        (let r = read P cid (Some (opt\<lparr>cursor := c\<rparr>)) w
         in case nextCursor r of
              None \<Rightarrow> [messagesR r]
            | Some c' \<Rightarrow> messagesR r # read_pages P cid opt (Some c') w)
      else [drop (nat (parseCursor c)) (allMessages P cid (Some opt) w)])"
  by pat_completeness auto

subsection \<open>More example data\<close>


text \<open>The history of \<open>conv1\<close> with three messages of increasing timestamps, and options
  with a limit of two.\<close>

definition abc_world :: world where
  "abc_world =
     demo_world (Map.empty(conv1_path \<mapsto>
       demo_store ''conv1'' [demo_message ''a'' T1, demo_message ''b'' T2, demo_message ''c'' T3]))"

definition limit_two :: ReadOpts where
  "limit_two = \<lparr>limit = Some 2, cursor = None, before = None, after = None\<rparr>"








definition no_id_world :: untyped_world where
  "no_id_world =
     \<lparr>files = Map.empty(conv1_path \<mapsto>
                Parsed \<lparr>u_version = Some 1, u_conversationId = None, u_messages = Some []\<rparr>),
      writable = (\<lambda>p. True),
      writes = [],
      readdir = (\<lambda>d. if d = ''/state'' then Inr [conv1_file] else Inl IOError),
      stat_mtimeMs = (\<lambda>p. if p = conv1_path then Inr 1780272000000 else Inl IOError)\<rparr>"


text \<open>The history file of the conversation with the empty id, and a store directory with
  two history files: the one of \<open>conv1\<close>, modified last, whose bytes do not parse, and the
  one of the conversation with the empty id, which holds one message.\<close>

definition empty_id_file :: string where
  "empty_id_file = ''msteams-history-e3b0c44298fc1c14.json''"

definition empty_id_path :: string where
  "empty_id_path = ''/state/msteams-history-e3b0c44298fc1c14.json''"

definition newest_corrupt_world :: world where
  "newest_corrupt_world =
     \<lparr>files = Map.empty(conv1_path \<mapsto> Unparsable,
                         empty_id_path \<mapsto> demo_store [] [demo_message ''m'' T1]),
      writable = (\<lambda>p. True),
      writes = [],
      readdir = (\<lambda>d. if d = ''/state'' then Inr [conv1_file, empty_id_file] else Inl IOError),
      stat_mtimeMs = (\<lambda>p. if p = conv1_path then Inr 1780272000000
                           else if p = empty_id_path then Inr 1780271000000
                           else Inl IOError)\<rparr>"

section \<open>Retention policy\<close>

lemma js_slice_from_drop:
  "int (length xs) > n \<Longrightarrow> js_slice_from xs (int (length xs) - n) = drop (length xs - nat n) xs"
  by (auto simp: js_slice_from_def js_slice_def Let_def min_def max_def nat_diff_distrib')

lemma is_fresh_not_dropped: "is_fresh P now = (\<lambda>m. \<not> dropped_by_age P now m)"
  by (rule ext) (auto simp: is_fresh_def dropped_by_age_def split: option.splits)

text \<open>C3. \<open>prune\<close> is the two-step retention policy: the age filter first, then the capacity
  cap on the already filtered list, dropping from the front.\<close>

theorem prune_age_then_capacity: "prune P now msgs = retention_spec P now msgs"
  by (simp add: prune_def retention_spec_def Let_def is_fresh_not_dropped
      js_slice_from_drop keep_last_def)

section \<open>The append engine\<close>

subsection \<open>What a call of \<open>append\<close> does to the world\<close>

lemma readStore_version [simp]: "version (readStore w fp c) = 1"
  by (simp add: readStore_def Let_def emptyStore_def split: option.splits)

lemma readStore_written:
  assumes "writeJsonFile w fp s = Inr w'" and "version s = 1"
  shows "readStore w' fp c = s"
  using assms
  by (cases s) (auto simp: writeJsonFile_def readStore_def readJsonFile_def to_json_def Let_def
      split: if_splits)

lemma readJsonFile_elsewhere:
  assumes "writeJsonFile w fp s = Inr w'" and "fp' \<noteq> fp"
  shows "readJsonFile w' fp' fb = readJsonFile w fp' fb"
proof -
  have "files w' fp' = files w fp'"
    using assms by (auto simp: writeJsonFile_def split: if_splits)
  then show ?thesis by (simp add: readJsonFile_def)
qed

lemma readStore_elsewhere:
  assumes "writeJsonFile w fp s = Inr w'" and "fp' \<noteq> fp"
  shows "readStore w' fp' c = readStore w fp' c"
  by (simp add: readStore_def readJsonFile_elsewhere[OF assms])

lemma writeJsonFile_writable:
  "writeJsonFile w fp s = Inr w' \<Longrightarrow> writable w' = writable w"
  by (auto simp: writeJsonFile_def split: if_splits)

lemma append_unfold:
  "append P now cid m w = append_body P now (resolveFilePath P cid) cid m w"
  by (simp add: append_def withFileLock_def Let_def)

lemma append_duplicate:
  "is_duplicate (messages (readStore w (resolveFilePath P cid) cid)) m \<Longrightarrow>
   append P now cid m w = (Inr (), w)"
  by (simp add: append_unfold append_body_def Let_def)

lemma append_unwritable:
  "\<not> is_duplicate (messages (readStore w (resolveFilePath P cid) cid)) m \<Longrightarrow>
   \<not> writable w (resolveFilePath P cid) \<Longrightarrow>
   append P now cid m w = (Inl IOError, w)"
  by (simp add: append_unfold append_body_def Let_def writeJsonFile_def)

lemma append_stored:
  assumes "\<not> is_duplicate (messages (readStore w (resolveFilePath P cid) cid)) m"
    and "writable w (resolveFilePath P cid)"
  shows "fst (append P now cid m w) = Inr ()"
    and "readStore (snd (append P now cid m w)) (resolveFilePath P cid) c =
         (readStore w (resolveFilePath P cid) cid)
           \<lparr>messages := prune P now (push_and_repair P (messages (readStore w (resolveFilePath P cid) cid)) m)\<rparr>"
    and "fp' \<noteq> resolveFilePath P cid \<Longrightarrow> readStore (snd (append P now cid m w)) fp' c = readStore w fp' c"
    and "writes (snd (append P now cid m w)) = writes w @ [resolveFilePath P cid]"
    and "writable (snd (append P now cid m w)) = writable w"
proof -
  let ?fp = "resolveFilePath P cid"
  let ?s = "(readStore w ?fp cid)\<lparr>messages := prune P now (push_and_repair P (messages (readStore w ?fp cid)) m)\<rparr>"
  obtain w' where W: "writeJsonFile w ?fp ?s = Inr w'"
    using assms(2) by (simp add: writeJsonFile_def)
  have A: "append P now cid m w = (Inr (), w')"
    using assms(1) W by (simp add: append_unfold append_body_def Let_def)
  show "fst (append P now cid m w) = Inr ()" by (simp add: A)
  show "readStore (snd (append P now cid m w)) ?fp c = ?s"
    using readStore_written[OF W] by (simp add: A)
  show "fp' \<noteq> ?fp \<Longrightarrow> readStore (snd (append P now cid m w)) fp' c = readStore w fp' c"
    using readStore_elsewhere[OF W] by (simp add: A)
  show "writes (snd (append P now cid m w)) = writes w @ [?fp]"
    using W assms(2) by (auto simp: A writeJsonFile_def)
  show "writable (snd (append P now cid m w)) = writable w"
    using writeJsonFile_writable[OF W] by (simp add: A)
qed

lemma is_duplicate_iff:
  "is_duplicate msgs m = (id_f m \<noteq> [] \<and> id_f m \<in> id_f ` set msgs)"
  unfolding is_duplicate_def list_ex_iff by (auto intro: rev_image_eqI)

subsection \<open>Ordering repair and pruning\<close>

lemma js_at_prior_last:
  "js_at (xs @ [m]) (- 2) = (if xs = [] then None else Some (last xs))"
proof (cases xs rule: rev_cases)
  case Nil
  then show ?thesis by (simp add: js_at_def)
next
  case (snoc ys y)
  have "(ys @ [y, m]) ! length ys = y" by (simp add: nth_append)
  moreover have "nat (int (length ys)) = length ys" by simp
  ultimately show ?thesis using snoc by (simp add: js_at_def Let_def)
qed

lemma push_and_repair_eq:
  "push_and_repair P xs m =
     (if xs \<noteq> [] \<and> createdDateTime m < createdDateTime (last xs)
      then array_sort (by_createdDateTime P) (xs @ [m]) else xs @ [m])"
  by (simp add: push_and_repair_def Let_def js_at_prior_last)

lemma mset_insort_cmp: "mset (insort_cmp c x ys) = add_mset x (mset ys)"
  by (induction ys) auto

lemma mset_array_sort: "mset (array_sort c xs) = mset xs"
  by (induction xs) (auto simp: array_sort_def mset_insort_cmp)

lemma mset_push_and_repair: "mset (push_and_repair P xs m) = add_mset m (mset xs)"
  by (simp add: push_and_repair_eq mset_array_sort)

lemma length_push_and_repair: "length (push_and_repair P xs m) = Suc (length xs)"
  using mset_push_and_repair[of P xs m, THEN arg_cong, of size] by simp

lemma insort_cmp_agrees:
  assumes "\<forall>y \<in> set ys. (c x y \<le> 0) = (f x \<le> f y)"
  shows "insort_cmp c x ys = insort_key f x ys"
  using assms by (induction ys) auto

lemma array_sort_agrees:
  assumes "\<forall>a \<in> set xs. \<forall>b \<in> set xs. (c a b \<le> 0) = (f a \<le> f b)"
  shows "array_sort c xs = sort_key f xs"
  using assms
proof (induction xs)
  case Nil
  then show ?case by (simp add: array_sort_def)
next
  case (Cons x xs)
  have IH: "array_sort c xs = sort_key f xs" using Cons by simp
  have "insort_cmp c x (sort_key f xs) = insort_key f x (sort_key f xs)"
    using Cons.prems by (intro insort_cmp_agrees) simp
  then show ?case using IH by (simp add: array_sort_def)
qed

lemma array_sort_by_createdDateTime:
  "agrees_on P xs \<Longrightarrow> array_sort (by_createdDateTime P) xs = sort_key createdDateTime xs"
  unfolding agrees_on_def by (rule array_sort_agrees)

lemma prune_within_capacity:
  "0 \<le> maxMessages P \<Longrightarrow> int (length (prune P now xs)) \<le> maxMessages P"
  by (auto simp: prune_def Let_def js_slice_from_drop)

lemma prune_room:
  "int (length xs) \<le> maxMessages P \<Longrightarrow> prune P now xs = filter (is_fresh P now) xs"
proof -
  assume a: "int (length xs) \<le> maxMessages P"
  have "length (filter (is_fresh P now) xs) \<le> length xs" by simp
  with a have "\<not> int (length (filter (is_fresh P now) xs)) > maxMessages P" by linarith
  then show ?thesis by (simp add: prune_def Let_def)
qed


subsection \<open>Evaluating the examples\<close>

lemma demo_conv1_path:
  "resolveFilePath demo_params ''conv1'' = conv1_path"
  "resolveFilePath small_params ''conv1'' = conv1_path"
  by (simp_all add: resolveFilePath_def resolveMSTeamsStorePath_def path_join_def
      history_filename_def hashConversationId_def demo_defs)

lemma conv1_world_messages:
  "messages (readStore conv1_world conv1_path ''conv1'') = [demo_message ''a'' T1]"
  by (simp add: readStore_def readJsonFile_def conv1_world_def demo_world_def demo_store_def)

lemma demo_world_writable: "writable (demo_world fs) p"
  by (simp add: demo_world_def)

lemma demo_fresh:
  "is_fresh demo_params JUN_2026 (demo_message i T1)"
  "is_fresh demo_params JUN_2026 (demo_message i T2)"
  "is_fresh demo_params JUN_2026 (demo_message i T3)"
  "\<not> is_fresh demo_params JUN_2026 (demo_message i T_STALE)"
  "\<not> is_fresh demo_params JUN_2027 (demo_message i T_STALE)"
  "\<not> is_fresh demo_params JUN_2027 (demo_message i T1)"
  by (simp_all add: is_fresh_def demo_defs)

subsection \<open>Duplicate deliveries\<close>

text \<open>C9. When the id of the incoming message is not empty and a stored message has it,
  \<open>append\<close> returns without error and leaves the world as it was: no file is written and
  every persisted record is unchanged. In every case the write log grows by at most one
  entry, a write of the conversation's file.\<close>

theorem append_duplicate_frame:
  "(id_f message \<noteq> []
      \<and> id_f message \<in> id_f ` set (messages (readStore w (resolveFilePath P cid) cid))
      \<longrightarrow> append P now cid message w = (Inr (), w))
   \<and> (writes (snd (append P now cid message w)) = writes w
        \<or> writes (snd (append P now cid message w)) = writes w @ [resolveFilePath P cid])"
proof (cases "is_duplicate (messages (readStore w (resolveFilePath P cid) cid)) message")
  case True
  then show ?thesis by (simp add: append_duplicate)
next
  case False
  then have nd: "\<not> (id_f message \<noteq> []
      \<and> id_f message \<in> id_f ` set (messages (readStore w (resolveFilePath P cid) cid)))"
    by (simp add: is_duplicate_iff)
  show ?thesis
  proof (cases "writable w (resolveFilePath P cid)")
    case True
    with False nd show ?thesis using append_stored(4)[OF False True] by blast
  next
    case W: False
    with False nd show ?thesis using append_unwritable[OF False W] by auto
  qed
qed

theorem append_duplicate_frame_witness:
  "id_f (demo_message ''a'' T1) \<noteq> []
   \<and> id_f (demo_message ''a'' T1)
       \<in> id_f ` set (messages (readStore conv1_world (resolveFilePath demo_params ''conv1'') ''conv1''))
   \<and> append demo_params JUN_2026 ''conv1'' (demo_message ''a'' T1) conv1_world = (Inr (), conv1_world)"
proof -
  have h: "id_f (demo_message ''a'' T1) \<noteq> []
     \<and> id_f (demo_message ''a'' T1)
       \<in> id_f ` set (messages (readStore conv1_world (resolveFilePath demo_params ''conv1'') ''conv1''))"
    by (simp add: demo_conv1_path conv1_world_messages) (simp add: demo_message_def)
  with append_duplicate_frame[of "demo_message ''a'' T1" conv1_world demo_params "''conv1''" JUN_2026]
  show ?thesis by blast
qed

text \<open>C1, as stated, fails. The message \<open>x\<close> is older than the retention window, so the
  first delivery (clock at 2026-06-01) stores \<open>[a]\<close> without it; the second delivery (clock at
  2027-06-01) is then no duplicate, runs the retention policy again and stores \<open>[]\<close>.\<close>

theorem append_twice_differs:
  "id_f (demo_message ''x'' T_STALE) \<noteq> []
   \<and> messages (readStore
        (snd (append demo_params JUN_2026 ''conv1'' (demo_message ''x'' T_STALE) conv1_world))
        conv1_path ''conv1'') = [demo_message ''a'' T1]
   \<and> messages (readStore
        (snd (append demo_params JUN_2027 ''conv1'' (demo_message ''x'' T_STALE)
          (snd (append demo_params JUN_2026 ''conv1'' (demo_message ''x'' T_STALE) conv1_world))))
        conv1_path ''conv1'') = []"
proof -
  let ?x = "demo_message ''x'' T_STALE"
  let ?w1 = "snd (append demo_params JUN_2026 ''conv1'' ?x conv1_world)"
  have big: "int (length xs) \<le> 3 \<Longrightarrow> int (length xs) \<le> maxMessages demo_params" for xs :: "StoredMessage list"
    by (simp add: demo_defs)
  have nd0: "\<not> is_duplicate (messages (readStore conv1_world (resolveFilePath demo_params ''conv1'') ''conv1'')) ?x"
    by (simp add: demo_conv1_path conv1_world_messages) (simp add: is_duplicate_def demo_message_def)
  have wr0: "writable conv1_world (resolveFilePath demo_params ''conv1'')"
    by (simp add: conv1_world_def demo_world_writable)
  have L1: "messages (readStore ?w1 conv1_path ''conv1'') = [demo_message ''a'' T1]"
    using append_stored(2)[OF nd0 wr0, of JUN_2026 "''conv1''"]
    by (simp add: demo_conv1_path conv1_world_messages prune_room big length_push_and_repair
        mset_push_and_repair push_and_repair_eq array_sort_def demo_fresh)
  have nd1: "\<not> is_duplicate (messages (readStore ?w1 (resolveFilePath demo_params ''conv1'') ''conv1'')) ?x"
    by (simp add: demo_conv1_path L1) (simp add: is_duplicate_def demo_message_def)
  have wr1: "writable ?w1 (resolveFilePath demo_params ''conv1'')"
    using append_stored(5)[OF nd0 wr0] wr0 by simp
  have L2: "messages (readStore (snd (append demo_params JUN_2027 ''conv1'' ?x ?w1)) conv1_path ''conv1'') = []"
    using append_stored(2)[OF nd1 wr1, of JUN_2027 "''conv1''"]
    by (simp add: demo_conv1_path L1 prune_room big length_push_and_repair
        push_and_repair_eq array_sort_def demo_fresh)
  show ?thesis using L1 L2 by (simp add: demo_message_def)
qed

text \<open>C1, amended. A message with a non-empty id that is stored after its first delivery
  makes every later delivery a no-op: the second \<open>append\<close> returns without error and the
  world, hence the stored list, is the one the first \<open>append\<close> left.\<close>

theorem append_retained_idempotent:
  assumes "id_f message \<noteq> []"
    and "message \<in> set (messages (readStore (snd (append P now1 cid message w))
            (resolveFilePath P cid) cid))"
  shows "append P now2 cid message (snd (append P now1 cid message w))
         = (Inr (), snd (append P now1 cid message w))"
  using assms by (intro append_duplicate) (auto simp: is_duplicate_iff)

theorem append_retained_idempotent_witness:
  "id_f (demo_message ''b'' T2) \<noteq> []
   \<and> demo_message ''b'' T2 \<in> set (messages (readStore
        (snd (append demo_params JUN_2026 ''conv1'' (demo_message ''b'' T2) conv1_world))
        (resolveFilePath demo_params ''conv1'') ''conv1''))
   \<and> append demo_params JUN_2027 ''conv1'' (demo_message ''b'' T2)
        (snd (append demo_params JUN_2026 ''conv1'' (demo_message ''b'' T2) conv1_world))
      = (Inr (), snd (append demo_params JUN_2026 ''conv1'' (demo_message ''b'' T2) conv1_world))"
proof -
  let ?b = "demo_message ''b'' T2"
  have h1: "id_f ?b \<noteq> []" by (simp add: demo_message_def)
  have nd0: "\<not> is_duplicate (messages (readStore conv1_world (resolveFilePath demo_params ''conv1'') ''conv1'')) ?b"
    by (simp add: demo_conv1_path conv1_world_messages) (simp add: is_duplicate_def demo_message_def)
  have wr0: "writable conv1_world (resolveFilePath demo_params ''conv1'')"
    by (simp add: conv1_world_def demo_world_writable)
  have "int (length (push_and_repair demo_params [demo_message ''a'' T1] ?b)) \<le> maxMessages demo_params"
    by (simp add: length_push_and_repair) (simp add: demo_defs)
  then have "?b \<in> set (prune demo_params JUN_2026 (push_and_repair demo_params [demo_message ''a'' T1] ?b))"
    by (simp add: prune_room demo_fresh)
       (simp add: push_and_repair_eq array_sort_def)
  then have h2: "?b \<in> set (messages (readStore
        (snd (append demo_params JUN_2026 ''conv1'' ?b conv1_world))
        (resolveFilePath demo_params ''conv1'') ''conv1''))"
    using append_stored(2)[OF nd0 wr0, of JUN_2026 "''conv1''"]
    by (simp add: demo_conv1_path conv1_world_messages)
  from append_retained_idempotent[OF h1 h2] h1 h2 show ?thesis by blast
qed

subsection \<open>Messages with an empty id\<close>

lemma append_empty_id_parts:
  assumes eid: "id_f message = []"
    and wr: "writable w (resolveFilePath P cid)"
  shows "messages (readStore (snd (append P now1 cid message w)) (resolveFilePath P cid) cid)
           = prune P now1 (push_and_repair P (messages (readStore w (resolveFilePath P cid) cid)) message)"
    and "is_fresh P now1 message \<Longrightarrow> is_fresh P now2 message \<Longrightarrow>
         int (length (messages (readStore w (resolveFilePath P cid) cid))) + 2 \<le> maxMessages P \<Longrightarrow>
         count (mset (messages (readStore
            (snd (append P now2 cid message (snd (append P now1 cid message w))))
            (resolveFilePath P cid) cid))) message
         = count (mset (messages (readStore w (resolveFilePath P cid) cid))) message + 2"
proof -
  let ?fp = "resolveFilePath P cid"
  let ?L = "messages (readStore w ?fp cid)"
  let ?w1 = "snd (append P now1 cid message w)"
  let ?L1 = "messages (readStore ?w1 ?fp cid)"
  have nd: "\<not> is_duplicate xs message" for xs using eid by (simp add: is_duplicate_def)
  show L1: "?L1 = prune P now1 (push_and_repair P ?L message)"
    using append_stored(2)[OF nd wr] by simp
  assume f1: "is_fresh P now1 message" and f2: "is_fresh P now2 message"
    and room: "int (length ?L) + 2 \<le> maxMessages P"
  have wr1: "writable ?w1 ?fp" using append_stored(5)[OF nd wr] wr by simp
  have L1': "?L1 = filter (is_fresh P now1) (push_and_repair P ?L message)"
    unfolding L1 using room by (intro prune_room) (simp add: length_push_and_repair)
  have len1: "length ?L1 \<le> Suc (length ?L)"
    unfolding L1' using length_filter_le[of "is_fresh P now1" "push_and_repair P ?L message"]
    by (simp add: length_push_and_repair)
  have c1: "count (mset ?L1) message = count (mset ?L) message + 1"
    unfolding L1' by (simp add: f1 mset_push_and_repair)
  have L2: "messages (readStore (snd (append P now2 cid message ?w1)) ?fp cid)
            = prune P now2 (push_and_repair P ?L1 message)"
    using append_stored(2)[OF nd wr1] by simp
  have L2': "prune P now2 (push_and_repair P ?L1 message)
             = filter (is_fresh P now2) (push_and_repair P ?L1 message)"
    using room len1 by (intro prune_room) (simp add: length_push_and_repair)
  show "count (mset (messages (readStore (snd (append P now2 cid message ?w1)) ?fp cid))) message
        = count (mset ?L) message + 2"
    unfolding L2 L2' by (simp add: f2 mset_push_and_repair c1)
qed

text \<open>C10, as stated, fails. A message with an empty id that is older than the retention
  window is inserted and pruned at once: after two deliveries the store holds \<open>[a]\<close> and no
  copy of it.\<close>

theorem append_empty_id_stale:
  "id_f (demo_message [] T_STALE) = []
   \<and> messages (readStore
        (snd (append demo_params JUN_2026 ''conv1'' (demo_message [] T_STALE)
          (snd (append demo_params JUN_2026 ''conv1'' (demo_message [] T_STALE) conv1_world))))
        conv1_path ''conv1'') = [demo_message ''a'' T1]
   \<and> demo_message [] T_STALE \<noteq> demo_message ''a'' T1"
proof -
  let ?x = "demo_message [] T_STALE"
  let ?w1 = "snd (append demo_params JUN_2026 ''conv1'' ?x conv1_world)"
  have eid: "id_f ?x = []" by (simp add: demo_message_def)
  have big: "int (length xs) \<le> 3 \<Longrightarrow> int (length xs) \<le> maxMessages demo_params" for xs :: "StoredMessage list"
    by (simp add: demo_defs)
  have wr0: "writable conv1_world (resolveFilePath demo_params ''conv1'')"
    by (simp add: conv1_world_def demo_world_writable)
  have wr1: "writable ?w1 (resolveFilePath demo_params ''conv1'')"
    using append_stored(5)[of conv1_world demo_params "''conv1''" ?x JUN_2026] wr0 eid
    by (simp add: is_duplicate_def)
  have L1: "messages (readStore ?w1 conv1_path ''conv1'') = [demo_message ''a'' T1]"
    using append_empty_id_parts(1)[OF eid wr0, of JUN_2026]
    by (simp add: demo_conv1_path conv1_world_messages prune_room big length_push_and_repair
        push_and_repair_eq array_sort_def demo_fresh)
  have L2: "messages (readStore (snd (append demo_params JUN_2026 ''conv1'' ?x ?w1)) conv1_path ''conv1'')
            = [demo_message ''a'' T1]"
    using append_empty_id_parts(1)[OF eid wr1, of JUN_2026]
    by (simp add: demo_conv1_path L1 prune_room big length_push_and_repair
        push_and_repair_eq array_sort_def demo_fresh)
  show ?thesis using L2 by (simp add: demo_message_def)
qed

text \<open>C10, amended. A message with an empty id never takes the duplicate path: whenever the
  write succeeds, the persisted list is the pruned, repaired list with the message pushed,
  whether or not an identical message is stored. When the message passes the age filter at
  both deliveries and the capacity leaves room for two more messages, two deliveries raise
  the number of stored copies by two.\<close>

theorem append_empty_id_inserts:
  assumes "id_f message = []" and "writable w (resolveFilePath P cid)"
  shows "messages (readStore (snd (append P now1 cid message w)) (resolveFilePath P cid) cid)
           = prune P now1 (push_and_repair P (messages (readStore w (resolveFilePath P cid) cid)) message)
    \<and> (is_fresh P now1 message \<and> is_fresh P now2 message \<and>
         int (length (messages (readStore w (resolveFilePath P cid) cid))) + 2 \<le> maxMessages P \<longrightarrow>
         count (mset (messages (readStore
            (snd (append P now2 cid message (snd (append P now1 cid message w))))
            (resolveFilePath P cid) cid))) message
         = count (mset (messages (readStore w (resolveFilePath P cid) cid))) message + 2)"
  using append_empty_id_parts[OF assms] by blast

theorem append_empty_id_inserts_witness:
  "id_f (demo_message [] T2) = []
   \<and> writable conv1_world (resolveFilePath demo_params ''conv1'')
   \<and> is_fresh demo_params JUN_2026 (demo_message [] T2)
   \<and> int (length (messages (readStore conv1_world (resolveFilePath demo_params ''conv1'') ''conv1''))) + 2
        \<le> maxMessages demo_params
   \<and> count (mset (messages (readStore
        (snd (append demo_params JUN_2026 ''conv1'' (demo_message [] T2)
          (snd (append demo_params JUN_2026 ''conv1'' (demo_message [] T2) conv1_world))))
        (resolveFilePath demo_params ''conv1'') ''conv1''))) (demo_message [] T2) = 2"
proof -
  have h1: "id_f (demo_message [] T2) = []" by (simp add: demo_message_def)
  have h2: "writable conv1_world (resolveFilePath demo_params ''conv1'')"
    by (simp add: conv1_world_def demo_world_writable)
  have h3: "is_fresh demo_params JUN_2026 (demo_message [] T2)" by (simp add: demo_fresh)
  have h4: "int (length (messages (readStore conv1_world (resolveFilePath demo_params ''conv1'') ''conv1''))) + 2
        \<le> maxMessages demo_params"
    by (simp add: demo_conv1_path conv1_world_messages) (simp add: demo_defs)
  have c0: "count (mset (messages (readStore conv1_world (resolveFilePath demo_params ''conv1'') ''conv1'')))
     (demo_message [] T2) = 0"
    by (simp add: demo_conv1_path conv1_world_messages) (simp add: demo_message_def)
  from append_empty_id_inserts[OF h1 h2, of JUN_2026 JUN_2026] h1 h2 h3 h4 c0 show ?thesis by simp
qed

subsection \<open>The capacity invariant\<close>

lemma append_capacity_step:
  assumes cap: "0 \<le> maxMessages P"
    and inv: "\<forall>fp c. int (length (messages (readStore w fp c))) \<le> maxMessages P"
  shows "int (length (messages (readStore (snd (append P now cid m w)) fp c))) \<le> maxMessages P"
proof (cases "is_duplicate (messages (readStore w (resolveFilePath P cid) cid)) m")
  case True
  then show ?thesis using inv by (simp add: append_duplicate)
next
  case nd: False
  show ?thesis
  proof (cases "writable w (resolveFilePath P cid)")
    case False
    then show ?thesis using inv append_unwritable[OF nd False] by simp
  next
    case True
    show ?thesis
    proof (cases "fp = resolveFilePath P cid")
      case True
      then show ?thesis
        using append_stored(2)[OF nd \<open>writable w (resolveFilePath P cid)\<close>] prune_within_capacity[OF cap]
        by simp
    next
      case False
      then show ?thesis
        using append_stored(3)[OF nd True False] inv by simp
    qed
  qed
qed

text \<open>C4. With a capacity that is not negative, the bound on the length of every persisted
  list is an invariant of \<open>append\<close>: when it holds of the world before a sequence of appends
  (as it does when no history file exists), it holds after each of them, for every file and
  every conversation.\<close>

theorem append_capacity_invariant:
  assumes "0 \<le> maxMessages P"
    and "\<forall>fp c. int (length (messages (readStore w fp c))) \<le> maxMessages P"
  shows "int (length (messages (readStore (run_appends P calls w) fp c))) \<le> maxMessages P"
  using assms(2)
proof (induction calls arbitrary: w)
  case Nil
  then show ?case by simp
next
  case (Cons call calls)
  obtain now cid m where call: "call = (now, cid, m)" by (cases call) auto
  have "\<forall>fp c. int (length (messages (readStore (snd (append P now cid m w)) fp c))) \<le> maxMessages P"
    using append_capacity_step[OF assms(1) Cons.prems] by blast
  from Cons.IH[OF this] show ?case by (simp add: call)
qed

theorem append_capacity_invariant_witness:
  "0 \<le> maxMessages small_params
   \<and> (\<forall>fp c. int (length (messages (readStore (demo_world Map.empty) fp c))) \<le> maxMessages small_params)
   \<and> int (length (messages (readStore
        (run_appends small_params
           [(JUN_2026, ''conv1'', demo_message ''a'' T1), (JUN_2026, ''conv1'', demo_message ''b'' T2),
            (JUN_2026, ''conv1'', demo_message ''c'' T3)] (demo_world Map.empty))
        conv1_path ''conv1''))) \<le> 2"
proof -
  have h1: "0 \<le> maxMessages small_params" by (simp add: demo_defs)
  have m: "maxMessages small_params = 2" by (simp add: demo_defs)
  have h2: "\<forall>fp c. int (length (messages (readStore (demo_world Map.empty) fp c))) \<le> maxMessages small_params"
    by (simp add: readStore_def readJsonFile_def to_json_def emptyStore_def demo_world_def m)
  have c: "int (length (messages (readStore
        (run_appends small_params
           [(JUN_2026, ''conv1'', demo_message ''a'' T1), (JUN_2026, ''conv1'', demo_message ''b'' T2),
            (JUN_2026, ''conv1'', demo_message ''c'' T3)] (demo_world Map.empty))
        conv1_path ''conv1''))) \<le> maxMessages small_params"
    by (rule append_capacity_invariant[OF h1 h2])
  from h1 h2 c[unfolded m] show ?thesis by blast
qed

subsection \<open>Ordering repair\<close>

lemma append_repaired:
  assumes ag: "agrees_on P (messages (readStore w (resolveFilePath P cid) cid) @ [message])"
    and nd: "\<not> is_duplicate (messages (readStore w (resolveFilePath P cid) cid)) message"
    and wr: "writable w (resolveFilePath P cid)"
  shows "messages (readStore (snd (append P now cid message w)) (resolveFilePath P cid) cid)
         = prune P now
             (if messages (readStore w (resolveFilePath P cid) cid) \<noteq> []
                 \<and> createdDateTime message
                     < createdDateTime (last (messages (readStore w (resolveFilePath P cid) cid)))
              then sort_key createdDateTime (messages (readStore w (resolveFilePath P cid) cid) @ [message])
              else messages (readStore w (resolveFilePath P cid) cid) @ [message])"
  using append_stored(2)[OF nd wr, of now cid]
  by (simp add: push_and_repair_eq array_sort_by_createdDateTime[OF ag])












section \<open>The read engine\<close>

subsection \<open>Cursors, limits and slices\<close>

declare String_nat.simps [simp del]

lemma digit_char_props:
  assumes "d < 10"
  shows "is_digit (digit_char d)" and "digit_val (digit_char d) = d"
    and "\<not> is_space (digit_char d)" and "digit_char d \<noteq> CHR ''-''" and "digit_char d \<noteq> CHR ''+''"
proof -
  have c: "(of_char (digit_char d) :: nat) = 48 + d"
    using assms by (simp add: digit_char_def)
  show "is_digit (digit_char d)" using assms by (simp add: is_digit_def c)
  show "digit_val (digit_char d) = d" by (simp add: digit_val_def c)
  show "\<not> is_space (digit_char d)" using assms by (auto simp: is_space_def c)
  have "(of_char (digit_char d) :: nat) \<noteq> of_char CHR ''-''" using assms by (simp add: c)
  then show "digit_char d \<noteq> CHR ''-''" by auto
  have "(of_char (digit_char d) :: nat) \<noteq> of_char CHR ''+''" using assms by (simp add: c)
  then show "digit_char d \<noteq> CHR ''+''" by auto
qed

lemma String_nat_nonempty: "String_nat n \<noteq> []"
  by (subst String_nat.simps) simp

lemma String_nat_digits: "\<forall>c \<in> set (String_nat n). is_digit c"
proof (induction n rule: String_nat.induct)
  case (1 n)
  show ?case
  proof (cases "n < 10")
    case True
    then show ?thesis by (subst String_nat.simps) (simp add: digit_char_props)
  next
    case False
    then show ?thesis using 1 by (subst String_nat.simps) (simp add: digit_char_props)
  qed
qed

lemma hd_String_nat: "\<exists>d < 10. hd (String_nat n) = digit_char d"
proof (induction n rule: String_nat.induct)
  case (1 n)
  show ?case
  proof (cases "n < 10")
    case True
    then show ?thesis by (subst String_nat.simps) auto
  next
    case False
    then show ?thesis using 1 String_nat_nonempty[of "n div 10"]
      by (subst String_nat.simps) simp
  qed
qed

lemma digits_val_snoc: "digits_val (ds @ [c]) = 10 * digits_val ds + digit_val c"
  by (simp add: digits_val_def)

lemma digits_val_String_nat: "digits_val (String_nat n) = n"
proof (induction n rule: String_nat.induct)
  case (1 n)
  show ?case
  proof (cases "n < 10")
    case True
    then show ?thesis by (subst String_nat.simps) (simp add: digits_val_def digit_char_props)
  next
    case False
    then show ?thesis using 1
      by (subst String_nat.simps) (simp add: digits_val_snoc digit_char_props)
  qed
qed

lemma is_digit_props:
  assumes "is_digit c"
  shows "\<not> is_space c" and "c \<noteq> CHR ''-''" and "c \<noteq> CHR ''+''"
proof -
  from assms have r: "48 \<le> (of_char c :: nat)" by (simp add: is_digit_def)
  show "\<not> is_space c" using r assms by (auto simp: is_space_def is_digit_def)
  have "(of_char CHR ''-'' :: nat) = 45" and "(of_char CHR ''+'' :: nat) = 43" by simp_all
  with r show "c \<noteq> CHR ''-''" and "c \<noteq> CHR ''+''" by auto
qed

lemma bit_length_bounds:
  "0 < n \<Longrightarrow> 2 ^ (bit_length n - 1) \<le> n \<and> n < 2 ^ bit_length n"
proof (induction n rule: bit_length.induct)
  case (1 n)
  show ?case
  proof (cases "n div 2 = 0")
    case True
    with 1(2) have "n = 1" by (simp add: div_eq_0_iff) 
    then show ?thesis by simp
  next
    case False
    then have pos: "0 < n div 2" by simp
    from 1(1)[OF _ pos] 1(2)
    have IH: "2 ^ (bit_length (n div 2) - 1) \<le> n div 2" "n div 2 < 2 ^ bit_length (n div 2)"
      by simp_all
    have bl: "bit_length n = Suc (bit_length (n div 2))" using 1(2) by simp
    have bpos: "0 < bit_length (n div 2)" using pos by simp
    then have e: "2 ^ bit_length (n div 2) = 2 * (2::nat) ^ (bit_length (n div 2) - 1)"
      by (cases "bit_length (n div 2)") simp_all
    have lo: "2 ^ bit_length (n div 2) \<le> n" using IH(1) e by linarith
    have hi: "n < 2 * 2 ^ bit_length (n div 2)" using IH(2) by linarith
    show ?thesis using lo hi by (simp add: bl del: bit_length.simps)
  qed
qed

lemma round53_small: "n < 2 ^ 53 \<Longrightarrow> round53 n = n"
  by (simp add: round53_def)

lemma round53_huge:
  assumes "2 ^ 1024 \<le> n"
  shows "2 ^ 1024 \<le> round53 n"
proof -
  have npos: "0 < n" using assms by (metis less_le_trans zero_less_numeral zero_less_power)
  define b where "b = bit_length n"
  define e where "e = b - 53"
  have bnd: "2 ^ (b - 1) \<le> n" "n < 2 ^ b" using bit_length_bounds[OF npos] by (simp_all add: b_def)
  have lt: "(2::nat) ^ 1024 < 2 ^ b" using assms bnd(2) by linarith
  have "(1::nat) < 2" by simp
  from power_less_imp_less_exp[OF this lt] have b: "1024 < b" .
  then have be: "b - 1 = 52 + e" by (simp add: e_def)
  have big: "\<not> n < 2 ^ 53"
  proof -
    have "(2::nat) ^ 53 \<le> 2 ^ 1024" by (rule power_increasing) simp_all
    then show ?thesis using assms by linarith
  qed
  have "2 ^ 52 * 2 ^ e \<le> n" by (metis be bnd(1) power_add)
  then have q: "2 ^ 52 \<le> n div 2 ^ e"
    by (simp add: less_eq_div_iff_mult_less_eq)
  define q' where "q' = (if n mod 2 ^ e < 2 ^ (e - 1) \<or> (n mod 2 ^ e = 2 ^ (e - 1) \<and> even (n div 2 ^ e))
                         then n div 2 ^ e else n div 2 ^ e + 1)"
  have q52: "2 ^ 52 \<le> q'" using q by (simp add: q'_def)
  have a: "2 ^ 52 * 2 ^ e \<le> q' * 2 ^ e" by (rule mult_le_mono1) (rule q52)
  have c: "(2::nat) ^ (52 + e) = 2 ^ 52 * 2 ^ e" by (rule power_add)
  have d: "(2::nat) ^ 1024 \<le> 2 ^ (52 + e)" using b be by (intro power_increasing) simp_all
  have r: "round53 n = q' * 2 ^ e"
    using big by (simp add: round53_def Let_def q'_def e_def b_def del: bit_length.simps)
  show ?thesis by (metis a c d order_trans r)
qed

lemma parseInt_digits:
  assumes "ds \<noteq> []" and "\<forall>c \<in> set ds. is_digit c" and "t = [] \<or> \<not> is_digit (hd t)"
  shows "parseInt (ds @ t) =
           (if round53 (digits_val ds) \<ge> 2 ^ 1024 then PosInfinity
            else Finite (int (round53 (digits_val ds))))"
proof -
  obtain d ds' where ds: "ds = d # ds'" using assms(1) by (cases ds) auto
  have dd: "is_digit d" using assms(2) ds by simp
  have sp: "dropWhile is_space (ds @ t) = ds @ t"
    using is_digit_props(1)[OF dd] by (simp add: ds)
  have hd: "hd (ds @ t) = d" by (simp add: ds)
  have tw: "takeWhile is_digit (ds @ t) = ds"
    using assms(2,3) by (cases t) (simp_all add: takeWhile_append2 takeWhile_tail)
  show ?thesis
    using is_digit_props(2,3)[OF dd] assms(1)
    by (simp add: parseInt_def sp hd tw Let_def)
qed

lemma parseInt_negative:
  assumes "ds \<noteq> []" and "\<forall>c \<in> set ds. is_digit c" and "t = [] \<or> \<not> is_digit (hd t)"
  shows "parseInt (CHR ''-'' # ds @ t) =
           (if round53 (digits_val ds) \<ge> 2 ^ 1024 then NegInfinity
            else Finite (- int (round53 (digits_val ds))))"
proof -
  have ns: "\<not> is_space CHR ''-''" by (simp add: is_space_def)
  have tw: "takeWhile is_digit (ds @ t) = ds"
    using assms(2,3) by (cases t) (simp_all add: takeWhile_append2 takeWhile_tail)
  show ?thesis using assms(1) by (simp add: parseInt_def ns tw Let_def)
qed



lemma parseInt_String_nat: "n < 2 ^ 53 \<Longrightarrow> parseInt (String_nat n) = Finite (int n)"
proof -
  assume n: "n < 2 ^ 53"
  have "(2::nat) ^ 53 \<le> 2 ^ 1024" by (rule power_increasing) simp_all
  then have "\<not> 2 ^ 1024 \<le> n" using n by linarith
  then show ?thesis
    using parseInt_digits[of "String_nat n" "[]"] String_nat_digits[of n] n
    by (simp add: String_nat_nonempty digits_val_String_nat round53_small)
qed

lemma parseCursor_String_int:
  "0 \<le> k \<Longrightarrow> k < 2 ^ 53 \<Longrightarrow> parseCursor (Some (String_int k)) = k"
proof -
  assume k: "0 \<le> k" "k < 2 ^ 53"
  then have "nat k < 2 ^ 53" by (simp add: nat_less_iff)
  then show ?thesis using k
    by (simp add: parseCursor_def String_int_def parseInt_String_nat String_nat_nonempty)
qed

lemma parseCursor_nonneg: "0 \<le> parseCursor c"
  by (simp add: parseCursor_def split: option.splits js_number.splits)

lemma clamp_limit_range: "1 \<le> clamp_limit l \<and> clamp_limit l \<le> 50"
  by (simp add: clamp_limit_def MAX_LIMIT_def DEFAULT_LIMIT_def split: option.splits)

lemma js_slice_window:
  "0 \<le> i \<Longrightarrow> 0 \<le> n \<Longrightarrow> js_slice xs i (i + n) = take (nat n) (drop (nat i) xs)"
  by (auto simp: js_slice_def Let_def min_def)

subsection \<open>Pagination\<close>

lemma allMessages_cursor:
  "allMessages P cid (Some (opt\<lparr>cursor := c\<rparr>)) w = allMessages P cid (Some opt) w"
  by (simp add: allMessages_def opt_before_def opt_after_def)

lemma read_eq:
  "read P cid opts w =
     \<lparr>messagesR = take (nat (clamp_limit (opt_limit opts)))
                     (drop (nat (parseCursor (opt_cursor opts))) (allMessages P cid opts w)),
      nextCursor =
        (if parseCursor (opt_cursor opts) + clamp_limit (opt_limit opts)
              < int (length (allMessages P cid opts w))
         then Some (String_int (parseCursor (opt_cursor opts) + clamp_limit (opt_limit opts)))
         else None)\<rparr>"
proof -
  have "0 \<le> clamp_limit (opt_limit opts)" using clamp_limit_range[of "opt_limit opts"] by linarith
  then show ?thesis
    by (simp add: read_def Let_def js_slice_window[OF parseCursor_nonneg])
qed

text \<open>The cursor that \<open>read\<close> issues for an array is read back as the offset it names.\<close>

lemma read_next_cursor:
  assumes "nextCursor (read P cid opts w) = Some c'"
    and arr: "int (length (allMessages P cid opts w)) < 2 ^ 32"
  shows "parseCursor (Some c') = parseCursor (opt_cursor opts) + clamp_limit (opt_limit opts)"
    and "parseCursor (Some c') < int (length (allMessages P cid opts w))"
    and "parseCursor (opt_cursor opts) < parseCursor (Some c')"
proof -
  let ?k = "parseCursor (opt_cursor opts) + clamp_limit (opt_limit opts)"
  have pos: "1 \<le> clamp_limit (opt_limit opts)" using clamp_limit_range by blast
  have nn: "0 \<le> ?k" using parseCursor_nonneg[of "opt_cursor opts"] pos by linarith
  from assms(1) have lt: "?k < int (length (allMessages P cid opts w))" and c': "c' = String_int ?k"
    by (auto simp: read_eq split: if_splits)
  have "(2::int) ^ 32 \<le> 2 ^ 53" by (rule power_increasing) simp_all
  then have small: "?k < 2 ^ 53" using lt arr by linarith
  show "parseCursor (Some c') = ?k" by (simp only: c' parseCursor_String_int[OF nn small])
  then show "parseCursor (Some c') < int (length (allMessages P cid opts w))" using lt by simp
  show "parseCursor (opt_cursor opts) < parseCursor (Some c')"
    using \<open>parseCursor (Some c') = ?k\<close> pos by linarith
qed

termination read_pages
proof (relation "measure (\<lambda>(P, cid, opt, c, w).
         length (allMessages P cid (Some opt) w) - nat (parseCursor c))")
  show "wf (measure (\<lambda>(P, cid, opt, c, w).
         length (allMessages P cid (Some opt) w) - nat (parseCursor c)))" by simp
next
  fix P cid opt c w r c'
  assume arr: "int (length (allMessages P cid (Some opt) w)) < 2 ^ 32"
    and "r = read P cid (Some (opt\<lparr>cursor := c\<rparr>)) w" and "nextCursor r = Some c'"
  then have n: "nextCursor (read P cid (Some (opt\<lparr>cursor := c\<rparr>)) w) = Some c'" by simp
  have arr': "int (length (allMessages P cid (Some (opt\<lparr>cursor := c\<rparr>)) w)) < 2 ^ 32"
    using arr by (simp only: allMessages_cursor)
  have "parseCursor (Some c') < int (length (allMessages P cid (Some opt) w))"
    and "parseCursor c < parseCursor (Some c')"
    using read_next_cursor(2,3)[OF n arr'] by (simp_all add: allMessages_cursor opt_cursor_def)
  then show "((P, cid, opt, Some c', w), (P, cid, opt, c, w))
      \<in> measure (\<lambda>(P, cid, opt, c, w). length (allMessages P cid (Some opt) w) - nat (parseCursor c))"
    using parseCursor_nonneg[of c] by simp
qed

declare read_pages.simps [simp del]

lemma read_pages_from:
  "concat (read_pages P cid opt c w) = drop (nat (parseCursor c)) (allMessages P cid (Some opt) w)"
proof (induction P cid opt c w rule: read_pages.induct)
  case (1 P cid opt c w)
  let ?opts = "Some (opt\<lparr>cursor := c\<rparr>)"
  let ?all = "allMessages P cid (Some opt) w"
  let ?off = "parseCursor c"
  let ?lim = "clamp_limit (limit opt)"
  show ?case
  proof (cases "int (length ?all) < 2 ^ 32")
    case False
    then show ?thesis by (subst read_pages.simps) simp
  next
    case arr: True
    have arr': "int (length (allMessages P cid ?opts w)) < 2 ^ 32"
      using arr by (simp only: allMessages_cursor)
    have ol: "opt_limit ?opts = limit opt" and oc: "opt_cursor ?opts = c"
      by (simp_all add: opt_limit_def opt_cursor_def)
    have page: "messagesR (read P cid ?opts w) = take (nat ?lim) (drop (nat ?off) ?all)"
      by (simp add: read_eq ol oc allMessages_cursor)
    show ?thesis
    proof (cases "nextCursor (read P cid ?opts w)")
      case None
      then have "\<not> ?off + ?lim < int (length ?all)"
        by (simp add: read_eq ol oc allMessages_cursor split: if_splits)
      then have "take (nat ?lim) (drop (nat ?off) ?all) = drop (nat ?off) ?all"
        using parseCursor_nonneg[of c] by (intro take_all) simp
      then show ?thesis using None page arr by (subst read_pages.simps) (simp add: Let_def)
    next
      case (Some c')
      have k: "parseCursor (Some c') = ?off + ?lim"
        using read_next_cursor(1)[OF Some arr'] by (simp add: ol oc)
      have IH: "concat (read_pages P cid opt (Some c') w) = drop (nat (?off + ?lim)) ?all"
        using 1[OF arr refl Some] by (simp add: k)
      have lim: "0 \<le> ?lim" using clamp_limit_range[of "limit opt"] by linarith
      have "nat (?off + ?lim) = nat ?lim + nat ?off"
        using parseCursor_nonneg[of c] lim by simp
      then have "take (nat ?lim) (drop (nat ?off) ?all) @ drop (nat (?off + ?lim)) ?all = drop (nat ?off) ?all"
        by (metis append_take_drop_id drop_drop)
      then show ?thesis using Some page IH arr by (subst read_pages.simps) (simp add: Let_def)
    qed
  qed
qed

text \<open>C5. Paging from no cursor with fixed options reads, page after page, exactly the
  filtered stored messages, newest first: the pages concatenated are the reversed filtered
  list, so every message appears once, at its place, and the total count is its length.
  \<open>read_pages\<close> is a total function: the paging always ends.\<close>

theorem read_pagination_round_trip:
  "concat (read_pages P cid opt None w)
     = rev (filter_before (before opt) (filter_after (after opt)
             (messages (readStore w (resolveFilePath P cid) cid))))"
  by (simp add: read_pages_from parseCursor_def allMessages_def Let_def opt_before_def opt_after_def)

subsection \<open>Parameter normalization\<close>

lemma clamp_limit_cases:
  "clamp_limit None = 20"
  "clamp_limit (Some n) = (if n < 1 then 1 else if 50 < n then 50 else n)"
  by (simp_all add: clamp_limit_def DEFAULT_LIMIT_def MAX_LIMIT_def)

lemma parseCursor_absent: "parseCursor None = 0" "parseCursor (Some []) = 0"
  by (simp_all add: parseCursor_def)


lemma parseCursor_digits:
  assumes "ds \<noteq> []" and "\<forall>c \<in> set ds. is_digit c" and "t = [] \<or> \<not> is_digit (hd t)"
  shows "parseCursor (Some (ds @ t)) =
           (if 2 ^ 1024 \<le> round53 (digits_val ds) then 0 else int (round53 (digits_val ds)))"
    and "parseCursor (Some (CHR ''-'' # ds @ t)) = 0"
    and "digits_val ds < 2 ^ 53 \<Longrightarrow> parseCursor (Some (ds @ t)) = int (digits_val ds)"
    and "2 ^ 1024 \<le> digits_val ds \<Longrightarrow> parseCursor (Some (ds @ t)) = 0"
proof -
  show g: "parseCursor (Some (ds @ t)) =
           (if 2 ^ 1024 \<le> round53 (digits_val ds) then 0 else int (round53 (digits_val ds)))"
    using assms(1) by (simp add: parseCursor_def parseInt_digits[OF assms])
  show "parseCursor (Some (CHR ''-'' # ds @ t)) = 0"
    by (simp add: parseCursor_def parseInt_negative[OF assms])
  show "parseCursor (Some (ds @ t)) = int (digits_val ds)" if small: "digits_val ds < 2 ^ 53"
  proof -
    have "(2::nat) ^ 53 \<le> 2 ^ 1024" by (rule power_increasing) simp_all
    then have "\<not> 2 ^ 1024 \<le> digits_val ds" using small by linarith
    then show ?thesis by (simp only: g round53_small[OF small] if_False)
  qed
  show "parseCursor (Some (ds @ t)) = 0" if "2 ^ 1024 \<le> digits_val ds"
    by (simp only: g round53_huge[OF that] if_True)
qed

lemma read_out_of_range:
  assumes "int (length (allMessages P cid opts w)) \<le> parseCursor (opt_cursor opts)"
  shows "read P cid opts w = empty_result"
proof -
  have "1 \<le> clamp_limit (opt_limit opts)" using clamp_limit_range by blast
  with assms show ?thesis by (simp add: read_eq empty_result_def)
qed





lemma abc_all:
  "allMessages demo_params ''conv1'' (Some (limit_two\<lparr>cursor := c\<rparr>)) abc_world
     = [demo_message ''c'' T3, demo_message ''b'' T2, demo_message ''a'' T1]"
  by (simp add: allMessages_def demo_conv1_path readStore_def readJsonFile_def abc_world_def
      demo_world_def demo_store_def limit_two_def opt_before_def opt_after_def
      filter_before_def filter_after_def)






subsection \<open>A paging example\<close>

text \<open>The scenario of the specification: with three messages \<open>a\<close>, \<open>b\<close>, \<open>c\<close> of increasing
  timestamps and a limit of two, the first page is \<open>c, b\<close> with the cursor \<open>2\<close>, and the
  page at that cursor is \<open>a\<close> with no cursor.\<close>

lemma read_first_page:
  "read demo_params ''conv1'' (Some limit_two) abc_world
     = \<lparr>messagesR = [demo_message ''c'' T3, demo_message ''b'' T2], nextCursor = Some ''2''\<rparr>"
proof -
  have s: "String_int 2 = ''2''"
    by code_simp
  have "limit_two\<lparr>cursor := None\<rparr> = limit_two" by (simp add: limit_two_def)
  then have a: "allMessages demo_params ''conv1'' (Some limit_two) abc_world
     = [demo_message ''c'' T3, demo_message ''b'' T2, demo_message ''a'' T1]"
    using abc_all[of None] by simp
  have o: "opt_limit (Some limit_two) = Some 2" "opt_cursor (Some limit_two) = None"
    by (simp_all add: opt_limit_def opt_cursor_def limit_two_def)
  show ?thesis
    by (simp add: read_eq a s o clamp_limit_def DEFAULT_LIMIT_def MAX_LIMIT_def parseCursor_absent)
qed

lemma read_second_page:
  "read demo_params ''conv1'' (Some (limit_two\<lparr>cursor := Some ''2''\<rparr>)) abc_world
     = \<lparr>messagesR = [demo_message ''a'' T1], nextCursor = None\<rparr>"
proof -
  have p: "parseCursor (Some ''2'') = 2"
    using parseCursor_digits(3)[of "''2''" "[]"] by (simp add: is_digit_def digits_val_def digit_val_def)
  have o: "opt_limit (Some (limit_two\<lparr>cursor := Some ''2''\<rparr>)) = Some 2"
    "opt_cursor (Some (limit_two\<lparr>cursor := Some ''2''\<rparr>)) = Some ''2''"
    by (simp_all add: opt_limit_def opt_cursor_def limit_two_def)
  show ?thesis
    by (simp add: read_eq abc_all o p clamp_limit_def DEFAULT_LIMIT_def MAX_LIMIT_def)
qed

lemma read_pages_example:
  "read_pages demo_params ''conv1'' limit_two None abc_world
     = [[demo_message ''c'' T3, demo_message ''b'' T2], [demo_message ''a'' T1]]"
proof -
  have l: "limit_two\<lparr>cursor := None\<rparr> = limit_two" by (simp add: limit_two_def)
  have arr: "int (length (allMessages demo_params ''conv1'' (Some limit_two) abc_world)) < 2 ^ 32"
    using abc_all[of None] by (simp add: l)
  have two: "read_pages demo_params ''conv1'' limit_two (Some ''2'') abc_world = [[demo_message ''a'' T1]]"
    using arr by (subst read_pages.simps) (simp add: read_second_page)
  show ?thesis
    using arr by (subst read_pages.simps) (simp add: l read_first_page two)
qed

section \<open>Load recovery\<close>

subsection \<open>Well-typed files\<close>

lemma readStore_unusable:
  "unusable (files w fp) \<Longrightarrow> readStore w fp cid = emptyStore cid"
  by (cases "files w fp" rule: unusable.cases)
     (auto simp: readStore_def readJsonFile_def to_json_def emptyStore_def split: option.splits)

lemma allMessages_unusable:
  "unusable (files w (resolveFilePath P cid)) \<Longrightarrow> allMessages P cid opts w = []"
  by (simp add: allMessages_def Let_def readStore_unusable emptyStore_def filter_before_def
      filter_after_def split: option.splits)

lemma read_unusable:
  "unusable (files w (resolveFilePath P cid)) \<Longrightarrow> read P cid opts w = empty_result"
  by (rule read_out_of_range) (simp add: allMessages_unusable parseCursor_nonneg)

subsection \<open>Filters that throw\<close>











subsection \<open>The two embeddings on well-typed files\<close>







subsection \<open>Unusable records\<close>




subsection \<open>A record with a \<open>null\<close> element, and one without a \<open>conversationId\<close>\<close>





lemma readDefault_untyped_no_id:
  "readDefault_untyped demo_params None no_id_world = Inl TypeError"
proof -
  have dir: "resolveMSTeamsStorePath demo_params ''.'' = ''/state''"
    by (simp add: resolveMSTeamsStorePath_def path_join_def demo_defs)
  have ls: "readdir no_id_world ''/state'' = Inr [conv1_file]" by (simp add: no_id_world_def)
  have h: "filter is_history_file [conv1_file] = [conv1_file]"
    by (simp add: is_history_file_def startsWith_def endsWith_def conv1_file_def)
  have p: "path_join ''/state'' conv1_file = conv1_path"
    by (simp add: path_join_def conv1_file_def conv1_path_def)
  have best: "pick_best no_id_world ''/state'' [conv1_file] conv1_file 0 = Inr conv1_file"
    by (simp add: no_id_world_def conv1_path_def conv1_file_def path_join_def)
  have v: "readJsonFile no_id_world conv1_path (emptyStore_untyped [])
      = \<lparr>u_version = Some 1, u_conversationId = None, u_messages = Some []\<rparr>"
    by (simp add: readJsonFile_def no_id_world_def)
  have sel: "readDefault_try_untyped demo_params None no_id_world = Inr (Inl TypeError)"
    if "readdir no_id_world ''/state'' = Inr fs" "filter is_history_file fs = [conv1_file]" for fs
    using that by (simp add: readDefault_try_untyped_def Let_def dir best p v del: pick_best.simps)
  show ?thesis by (simp add: readDefault_untyped_def sel[OF ls h])
qed

subsection \<open>Recovery, and where it ends\<close>




section \<open>The default-conversation resolver\<close>

lemma readDefault_listing_error:
  "readdir w (storeDir P) = Inl e \<Longrightarrow> readDefault P opts w = empty_result"
  by (simp add: readDefault_def readDefault_try_def resolveMSTeamsStorePath_def path_join_def)

lemma readDefault_no_history_file:
  "readdir w (storeDir P) = Inr fs \<Longrightarrow> filter is_history_file fs = [] \<Longrightarrow>
   readDefault P opts w = empty_result"
  by (simp add: readDefault_def readDefault_try_def resolveMSTeamsStorePath_def path_join_def)

lemma readDefault_stat_error:
  "readdir w (storeDir P) = Inr fs \<Longrightarrow>
   pick_best w (storeDir P) (filter is_history_file fs) (hd (filter is_history_file fs)) 0 = Inl e \<Longrightarrow>
   readDefault P opts w = empty_result"
  by (simp add: readDefault_def readDefault_try_def resolveMSTeamsStorePath_def path_join_def Let_def)

lemma readDefault_selected:
  assumes "readdir w (resolveMSTeamsStorePath P ''.'') = Inr fs"
    and "filter is_history_file fs = hf" and "hf \<noteq> []"
    and "pick_best w (resolveMSTeamsStorePath P ''.'') hf (hd hf) 0 = Inr best"
  shows "readDefault P opts w =
     (let v = readJsonFile w (path_join (resolveMSTeamsStorePath P ''.'') best) (to_json (emptyStore []))
      in if j_version v \<noteq> Some 1 \<or> j_messages v = None then empty_result
         else read P (j_conversationId v) opts w)"
  by (simp add: readDefault_def readDefault_try_def assms Let_def)

text \<open>When every \<open>stat\<close> succeeds the loop returns a file: the running \<open>best\<close> when no
  file is newer than \<open>bestMtime\<close>, and otherwise the first file of the greatest
  modification time.\<close>

lemma pick_best_selects:
  assumes "\<forall>f \<in> set fs. stat_mtimeMs w (path_join dir f) = Inr (mt f)"
  shows "\<exists>b. pick_best w dir fs best bm = Inr b \<and>
           ((b = best \<and> (\<forall>f \<in> set fs. mt f \<le> bm))
            \<or> (\<exists>pre post. fs = pre @ b # post \<and> bm < mt b
                  \<and> (\<forall>f \<in> set pre. mt f < mt b) \<and> (\<forall>f \<in> set post. mt f \<le> mt b)))"
  using assms
proof (induction fs arbitrary: best bm)
  case Nil
  then show ?case by simp
next
  case (Cons f fs)
  have st: "stat_mtimeMs w (path_join dir f) = Inr (mt f)" using Cons.prems by simp
  have rest: "\<forall>g \<in> set fs. stat_mtimeMs w (path_join dir g) = Inr (mt g)" using Cons.prems by simp
  show ?case
  proof (cases "mt f > bm")
    case True
    from Cons.IH[OF rest, of f "mt f"] obtain b where b: "pick_best w dir fs f (mt f) = Inr b"
      and alt: "(b = f \<and> (\<forall>g \<in> set fs. mt g \<le> mt f))
            \<or> (\<exists>pre post. fs = pre @ b # post \<and> mt f < mt b
                  \<and> (\<forall>g \<in> set pre. mt g < mt b) \<and> (\<forall>g \<in> set post. mt g \<le> mt b))"
      by blast
    have res: "pick_best w dir (f # fs) best bm = Inr b" using True st b by simp
    from alt show ?thesis
    proof
      assume "b = f \<and> (\<forall>g \<in> set fs. mt g \<le> mt f)"
      then have "f # fs = [] @ b # fs \<and> bm < mt b \<and> (\<forall>g \<in> set []. mt g < mt b)
          \<and> (\<forall>g \<in> set fs. mt g \<le> mt b)" using True by simp
      then show ?thesis using res by blast
    next
      assume "\<exists>pre post. fs = pre @ b # post \<and> mt f < mt b
                  \<and> (\<forall>g \<in> set pre. mt g < mt b) \<and> (\<forall>g \<in> set post. mt g \<le> mt b)"
      then obtain pre post where d: "fs = pre @ b # post" "mt f < mt b"
        "\<forall>g \<in> set pre. mt g < mt b" "\<forall>g \<in> set post. mt g \<le> mt b" by blast
      have "f # fs = (f # pre) @ b # post \<and> bm < mt b \<and> (\<forall>g \<in> set (f # pre). mt g < mt b)
          \<and> (\<forall>g \<in> set post. mt g \<le> mt b)" using d True by simp
      then show ?thesis using res by blast
    qed
  next
    case False
    from Cons.IH[OF rest, of best bm] obtain b where b: "pick_best w dir fs best bm = Inr b"
      and alt: "(b = best \<and> (\<forall>g \<in> set fs. mt g \<le> bm))
            \<or> (\<exists>pre post. fs = pre @ b # post \<and> bm < mt b
                  \<and> (\<forall>g \<in> set pre. mt g < mt b) \<and> (\<forall>g \<in> set post. mt g \<le> mt b))"
      by blast
    have res: "pick_best w dir (f # fs) best bm = Inr b" using False st b by simp
    from alt show ?thesis
    proof
      assume "b = best \<and> (\<forall>g \<in> set fs. mt g \<le> bm)"
      then show ?thesis using res False by auto
    next
      assume "\<exists>pre post. fs = pre @ b # post \<and> bm < mt b
                  \<and> (\<forall>g \<in> set pre. mt g < mt b) \<and> (\<forall>g \<in> set post. mt g \<le> mt b)"
      then obtain pre post where d: "fs = pre @ b # post" "bm < mt b"
        "\<forall>g \<in> set pre. mt g < mt b" "\<forall>g \<in> set post. mt g \<le> mt b" by blast
      have "f # fs = (f # pre) @ b # post \<and> bm < mt b \<and> (\<forall>g \<in> set (f # pre). mt g < mt b)
          \<and> (\<forall>g \<in> set post. mt g \<le> mt b)" using d False by simp
      then show ?thesis using res by blast
    qed
  qed
qed

text \<open>A selected file that parses to a record of a wrong version, or whose \<open>messages\<close> is
  not an array, gives the empty result.\<close>

lemma readDefault_invalid_selected:
  assumes "readdir w (resolveMSTeamsStorePath P ''.'') = Inr fs"
    and "filter is_history_file fs = hf" and "hf \<noteq> []"
    and "pick_best w (resolveMSTeamsStorePath P ''.'') hf (hd hf) 0 = Inr best"
    and "files w (path_join (resolveMSTeamsStorePath P ''.'') best) = Some (Parsed d)"
    and "j_version d \<noteq> Some 1 \<or> j_messages d = None"
  shows "readDefault P opts w = empty_result"
  using readDefault_selected[OF assms(1-4), of opts] assms(5,6)
  by (auto simp: readJsonFile_def Let_def)

text \<open>C8 fails on the code. The file modified last is selected and does not parse, so the
  selected record fails to load; \<open>readDefault\<close> should return the empty result. The fallback
  record handed to \<open>readJsonFile\<close>, \<open>emptyStore("")\<close>, passes the validity check that follows,
  and \<open>readDefault\<close> returns what \<open>read\<close> gives for the conversation with the empty id.\<close>

theorem readDefault_unparsable_newest:
  "pick_best newest_corrupt_world ''/state'' [conv1_file, empty_id_file] conv1_file 0 = Inr conv1_file
   \<and> files newest_corrupt_world (path_join ''/state'' conv1_file) = Some Unparsable
   \<and> readDefault demo_params None newest_corrupt_world
       = \<lparr>messagesR = [demo_message ''m'' T1], nextCursor = None\<rparr>"
proof -
  have dir: "resolveMSTeamsStorePath demo_params ''.'' = ''/state''"
    by (simp add: resolveMSTeamsStorePath_def path_join_def demo_defs)
  have ls: "readdir newest_corrupt_world ''/state'' = Inr [conv1_file, empty_id_file]"
    by (simp add: newest_corrupt_world_def)
  have hf: "filter is_history_file [conv1_file, empty_id_file] = [conv1_file, empty_id_file]"
    by (simp add: is_history_file_def startsWith_def endsWith_def conv1_file_def empty_id_file_def)
  have p1: "path_join ''/state'' conv1_file = conv1_path"
    and p2: "path_join ''/state'' empty_id_file = empty_id_path"
    by (simp_all add: path_join_def conv1_file_def conv1_path_def empty_id_file_def empty_id_path_def)
  have ne: "empty_id_path \<noteq> conv1_path"
    by (simp add: empty_id_path_def conv1_path_def)
  have st1: "stat_mtimeMs newest_corrupt_world (path_join ''/state'' conv1_file) = Inr 1780272000000"
    unfolding p1 by (simp add: newest_corrupt_world_def)
  have st2: "stat_mtimeMs newest_corrupt_world (path_join ''/state'' empty_id_file) = Inr 1780271000000"
    unfolding p2 using ne by (simp add: newest_corrupt_world_def)
  have best: "pick_best newest_corrupt_world ''/state'' [conv1_file, empty_id_file] conv1_file 0 = Inr conv1_file"
    by (simp add: st1 st2)
  have sel: "files newest_corrupt_world conv1_path = Some Unparsable"
    using ne by (simp add: newest_corrupt_world_def)
  have fb: "readJsonFile newest_corrupt_world conv1_path (to_json (emptyStore [])) = to_json (emptyStore [])"
    by (simp add: readJsonFile_def sel)
  have ep: "resolveFilePath demo_params [] = empty_id_path"
    by (simp add: resolveFilePath_def resolveMSTeamsStorePath_def path_join_def history_filename_def
        hashConversationId_def demo_defs empty_id_path_def)
  have st: "messages (readStore newest_corrupt_world empty_id_path []) = [demo_message ''m'' T1]"
    by (simp add: readStore_def readJsonFile_def newest_corrupt_world_def demo_store_def)
  have rd: "read demo_params [] None newest_corrupt_world
            = \<lparr>messagesR = [demo_message ''m'' T1], nextCursor = None\<rparr>"
    by (simp add: read_eq allMessages_def ep st opt_before_def opt_after_def opt_limit_def
        opt_cursor_def filter_before_def filter_after_def parseCursor_def clamp_limit_cases)
  have "readDefault demo_params None newest_corrupt_world
          = read demo_params [] None newest_corrupt_world"
    using readDefault_selected[of newest_corrupt_world demo_params _ "[conv1_file, empty_id_file]" conv1_file,
        unfolded dir, OF ls hf] best
    by (simp add: p1 fb) (simp add: to_json_def emptyStore_def)
  then show ?thesis using best sel rd by (simp add: p1)
qed

end
